theory Spec2Isabelle
  imports Complex_Main "HOL-Library.Word"
begin

unbundle bit_operations_syntax

section \<open>randomize.hpp: random values on top of the standard library\<close>

text \<open>
  The header wraps \<^verbatim>\<open>std::mt19937_64\<close>, \<^verbatim>\<open>std::uniform_int_distribution\<close>,
  \<^verbatim>\<open>std::uniform_real_distribution\<close> and \<^verbatim>\<open>std::unordered_map\<close>. Those are
  not code of the header: the engine and the distributions are parameters of the model
  (record \<open>stdlib\<close>). The map is a partial function on keys compared by \<open>=\<close>; every
  insertion and every lookup first hashes the key with the hasher \<^verbatim>\<open>hash_pair<T>\<close> that
  line 182 installs, and is undefined where that hash is.
  Function-local \<^verbatim>\<open>static\<close> variables are explicit state, \<open>None\<close> before the first
  call of the function that declares them. The clock reading of \<^verbatim>\<open>gen_seed\<close> is an
  argument \<open>now\<close> of every call that can run a static initialiser.

  Widths are those of an LP64 platform: \<^verbatim>\<open>std::size_t\<close> and the clock's tick count
  have 64 bits, \<^verbatim>\<open>unsigned\<close> has 32, \<^verbatim>\<open>long long\<close> has 64.
\<close>

subsection \<open>The standard library, as far as the header uses it\<close>

type_synonym size_t = "64 word"
type_synonym unsigned = "32 word"

text \<open>
  A uniform distribution object holds its two parameters \<open>a\<close> and \<open>b\<close> and nothing
  else (\<^verbatim>\<open>uniform_int_distribution<T>{a, b}\<close>, \<^verbatim>\<open>uniform_real_distribution<T>{a, b}\<close>).
\<close>

record 'v distribution =
  param_a :: 'v
  param_b :: 'v

text \<open>
  \<open>mt19937_64 seed\<close> is the engine constructed from a seed. \<open>uniform d e\<close> is the call
  \<^verbatim>\<open>d(e)\<close> of a distribution on an engine: the value drawn and the advanced engine, or
  \<open>None\<close> where the library leaves the behaviour undefined. \<open>default_distribution\<close>
  is the default-constructed distribution, which \<^verbatim>\<open>operator[]\<close> of the map stores
  under a key that is absent.
\<close>

record ('v, 'e) stdlib =
  mt19937_64 :: "64 word \<Rightarrow> 'e"
  uniform :: "'v distribution \<Rightarrow> 'e \<Rightarrow> ('v \<times> 'e) option"
  default_distribution :: "'v distribution"

text \<open>
  What the standard requires of the parameters. \<^verbatim>\<open>uniform_int_distribution\<close>: \<open>a \<le> b\<close>.
  \<^verbatim>\<open>uniform_real_distribution\<close>: \<open>a \<le> b\<close> and \<open>b - a \<le> numeric_limits<T>::max()\<close>, here
  \<open>fmax\<close>; a floating-point value is a rational.
\<close>

definition uniform_int_requirement :: "int distribution \<Rightarrow> bool" where
  "uniform_int_requirement d \<longleftrightarrow> param_a d \<le> param_b d"

definition uniform_real_requirement :: "rat \<Rightarrow> rat distribution \<Rightarrow> bool" where
  "uniform_real_requirement fmax d \<longleftrightarrow> param_a d \<le> param_b d \<and> param_b d - param_a d \<le> fmax"

text \<open>
  What the standard promises of a distribution whose parameters meet the requirement
  \<open>req\<close>: the call returns, and the value lies between the parameters. Nothing is
  promised of other parameters. \<open>integral_library\<close> and \<open>floating_library\<close> say that
  the library at one type keeps the promise; the standard defines
  \<^verbatim>\<open>uniform_int_distribution<T>\<close> at \<^verbatim>\<open>short\<close>, \<^verbatim>\<open>int\<close>, \<^verbatim>\<open>long\<close>, \<^verbatim>\<open>long long\<close> and their
  unsigned types, and \<^verbatim>\<open>uniform_real_distribution<T>\<close> at the three floating-point
  types.
\<close>

definition uniform_contract :: "('v::ord distribution \<Rightarrow> bool) \<Rightarrow> ('v, 'e) stdlib \<Rightarrow> bool" where
  "uniform_contract req lib \<longleftrightarrow>
     (\<forall>d e. req d \<longrightarrow>
        (\<exists>v e'. uniform lib d e = Some (v, e') \<and> param_a d \<le> v \<and> v \<le> param_b d))"

definition integral_library :: "(int, 'e) stdlib \<Rightarrow> bool" where
  "integral_library lib \<longleftrightarrow> uniform_contract uniform_int_requirement lib"

definition floating_library :: "rat \<Rightarrow> (rat, 'e) stdlib \<Rightarrow> bool" where
  "floating_library fmax lib \<longleftrightarrow> uniform_contract (uniform_real_requirement fmax) lib"

subsection \<open>\<^verbatim>\<open>details::hash_pair\<close>\<close>

text \<open>
  Lines 33 to 46, the branch without Boost, at an integral \<open>T\<close>. A value of \<open>T\<close> is an
  \<open>int\<close>; in \<^verbatim>\<open>hash * 31 + p.first\<close> it is converted to \<^verbatim>\<open>std::size_t\<close>, which is
  reduction modulo \<open>2 ^ 64\<close> (\<open>word_of_int\<close>).
\<close>

definition hash_pair :: "int \<times> int \<Rightarrow> size_t" where
  "hash_pair p =
     (let hash = (17 :: size_t);
          hash = hash * 31 + word_of_int (fst p);
          hash = hash * 31 + word_of_int (snd p)
      in (hash AND 0x7fffffff) mod 100003)"

text \<open>
  The same lines at a floating-point \<open>T\<close>. There \<^verbatim>\<open>hash * 31 + p.first\<close> converts the
  product to \<open>T\<close> and adds in floating point, and the assignment to \<^verbatim>\<open>hash\<close> converts the
  sum back to \<^verbatim>\<open>std::size_t\<close>: the fractional part is discarded, and the conversion is
  undefined when the truncated value is not a \<^verbatim>\<open>std::size_t\<close> (\<open>None\<close>). Floating-point
  values are rationals here and the sum is exact, so the model is the code wherever
  the product, the operand and the sum are all representable in \<open>T\<close>, as small
  multiples of a half are.
\<close>

definition fp_to_size_t :: "rat \<Rightarrow> size_t option" where
  "fp_to_size_t r =
     (let t = (if 0 \<le> r then \<lfloor>r\<rfloor> else \<lceil>r\<rceil>)
      in if 0 \<le> t \<and> t < 2 ^ 64 then Some (word_of_int t) else None)"

definition size_t_to_fp :: "size_t \<Rightarrow> rat" where
  "size_t_to_fp h = of_int (uint h)"

definition hash_pair_floating :: "rat \<times> rat \<Rightarrow> size_t option" where
  "hash_pair_floating p =
     (let hash = (17 :: size_t) in
      case fp_to_size_t (size_t_to_fp (hash * 31) + fst p) of
        None \<Rightarrow> None
      | Some hash \<Rightarrow>
          (case fp_to_size_t (size_t_to_fp (hash * 31) + snd p) of
             None \<Rightarrow> None
           | Some hash \<Rightarrow> Some ((hash AND 0x7fffffff) mod 100003)))"

text \<open>
  The closed formula \<open>((17 * 31 + first) * 31 + second) & 0x7fffffff) % 100003\<close> in
  \<^verbatim>\<open>std::size_t\<close> arithmetic, on operands that are already \<^verbatim>\<open>std::size_t\<close>.
\<close>

definition hash_formula :: "size_t \<Rightarrow> size_t \<Rightarrow> size_t" where
  "hash_formula first second = (((17 * 31 + first) * 31 + second) AND 0x7fffffff) mod 100003"

text \<open>
  The hasher as the map calls it, \<open>None\<close> where a conversion in it is undefined. At an
  integral \<open>T\<close> none is; at a floating-point \<open>T\<close> it is \<open>hash_pair_floating\<close>.
\<close>

definition hash_integral :: "int \<times> int \<Rightarrow> size_t option" where
  "hash_integral p = Some (hash_pair p)"

subsection \<open>\<^verbatim>\<open>details::gen_seed\<close> and \<^verbatim>\<open>details::uniform_distribution\<close>\<close>

text \<open>
  Lines 91 to 95: the tick count of the high-resolution clock, cut to \<^verbatim>\<open>unsigned\<close>.
\<close>

definition gen_seed :: "64 word \<Rightarrow> unsigned" where
  "gen_seed seed_time = ucast seed_time"

text \<open>
  Lines 102 to 110 (integral \<open>T\<close>, bounds of type \<open>T\<close> as template parameters) and
  lines 117 to 125 (floating-point \<open>T\<close>, bounds of type \<^verbatim>\<open>long long\<close>, each converted
  by \<^verbatim>\<open>static_cast<T>\<close>, here \<open>cast\<close>).
\<close>

definition uniform_distribution_tpl_integral :: "'v \<Rightarrow> 'v \<Rightarrow> 'v distribution" where
  "uniform_distribution_tpl_integral mn mx = \<lparr>param_a = mn, param_b = mx\<rparr>"

text \<open>
  What is known of \<^verbatim>\<open>static_cast<T>\<close> from \<^verbatim>\<open>long long\<close> to a floating-point \<open>T\<close>: it
  rounds to a neighbouring value of \<open>T\<close>, which keeps the order.
\<close>

definition cast_monotone :: "(int \<Rightarrow> 'v :: ord) \<Rightarrow> bool" where
  "cast_monotone cast \<longleftrightarrow> (\<forall>x y. x \<le> y \<longrightarrow> cast x \<le> cast y)"

definition uniform_distribution_tpl_floating :: "(int \<Rightarrow> 'v) \<Rightarrow> int \<Rightarrow> int \<Rightarrow> 'v distribution" where
  "uniform_distribution_tpl_floating cast mn mx = \<lparr>param_a = cast mn, param_b = cast mx\<rparr>"

text \<open>
  Lines 132 to 138 and 145 to 151: bounds as function parameters. The two overloads
  have the same body and differ in the distribution class only, which is the
  \<open>uniform\<close> of the library at that \<open>T\<close>.
\<close>

definition uniform_distribution :: "'v \<Rightarrow> 'v \<Rightarrow> 'v distribution" where
  "uniform_distribution mn mx = \<lparr>param_a = mn, param_b = mx\<rparr>"

subsection \<open>\<^verbatim>\<open>details::get_rand_impl\<close>, its closure, \<^verbatim>\<open>details::rand_impl\<close>\<close>

text \<open>
  An element of the map \<^verbatim>\<open>generators\<close>: the distribution stored there, and the
  address of the node that holds it, which tells one stored object from another
  with the same parameters.
\<close>

record 'v node =
  address :: nat
  stored :: "'v distribution"

text \<open>
  The statics of one instantiation \<^verbatim>\<open>get_rand_impl<T>\<close> (lines 178 to 183), and
  \<open>next_address\<close>, the address of the next node the map allocates.
\<close>

record ('v, 'e) get_rand_statics =
  seed_time :: unsigned
  engine :: 'e
  generators :: "'v \<times> 'v \<rightharpoonup> 'v node"
  next_address :: nat

text \<open>
  \<^verbatim>\<open>generators.emplace(key, d)\<close> hashes \<open>key\<close>, stores \<open>d\<close> in a new node when no element
  has an equal key, and changes nothing otherwise. \<^verbatim>\<open>generators[key]\<close> hashes \<open>key\<close> and is
  the distribution stored under \<open>key\<close>, after storing a default-constructed one when
  \<open>key\<close> is absent. Both are undefined (\<open>None\<close>) where the hash of the key is.
\<close>

definition emplace ::
  "('v \<times> 'v \<Rightarrow> size_t option) \<Rightarrow> 'v \<times> 'v \<Rightarrow> 'v distribution \<Rightarrow> ('v, 'e) get_rand_statics
     \<Rightarrow> ('v, 'e) get_rand_statics option" where
  "emplace hasher key d s =
     (case hasher key of
        None \<Rightarrow> None
      | Some h \<Rightarrow>
          (case generators s key of
             Some n \<Rightarrow> Some s
           | None \<Rightarrow>
               Some (s\<lparr>generators := (generators s)(key \<mapsto> \<lparr>address = next_address s, stored = d\<rparr>),
                       next_address := Suc (next_address s)\<rparr>)))"

definition subscript ::
  "('v, 'e) stdlib \<Rightarrow> ('v \<times> 'v \<Rightarrow> size_t option) \<Rightarrow> 'v \<times> 'v \<Rightarrow> ('v, 'e) get_rand_statics
     \<Rightarrow> ('v distribution \<times> ('v, 'e) get_rand_statics) option" where
  "subscript lib hasher key s =
     (case hasher key of
        None \<Rightarrow> None
      | Some h \<Rightarrow>
          (case generators s key of
             Some n \<Rightarrow> Some (stored n, s)
           | None \<Rightarrow>
               Some (default_distribution lib,
                     s\<lparr>generators := (generators s)(key \<mapsto>
                          \<lparr>address = next_address s, stored = default_distribution lib\<rparr>),
                       next_address := Suc (next_address s)\<rparr>)))"

text \<open>
  Lines 176 to 193, with the hasher of line 182 as \<open>hasher\<close>. The statics are
  initialised by the first call, in the order of their declarations. The closure
  \<open>f\<close> captures \<open>key\<close> by value and nothing else, so the closure is its key.
\<close>

definition get_rand_impl ::
  "('v, 'e) stdlib \<Rightarrow> ('v \<times> 'v \<Rightarrow> size_t option) \<Rightarrow> 64 word \<Rightarrow> 'v \<Rightarrow> 'v
     \<Rightarrow> ('v, 'e) get_rand_statics option
     \<Rightarrow> (('v \<times> 'v) \<times> ('v, 'e) get_rand_statics) option" where
  "get_rand_impl lib hasher now mn mx st =
     (let s = (case st of
                 Some s \<Rightarrow> s
               | None \<Rightarrow>
                   (let seed = gen_seed now
                    in \<lparr>seed_time = seed, engine = mt19937_64 lib (ucast seed),
                        generators = Map.empty, next_address = 0\<rparr>));
          key = (mn, mx)
      in case emplace hasher key (uniform_distribution mn mx) s of
           None \<Rightarrow> None
         | Some s \<Rightarrow> (let f = key in Some (f, s)))"

text \<open>
  A call \<open>f()\<close> of the closure, line 189: \<^verbatim>\<open>generators[key](engine)\<close> on the statics
  as they are at the time of the call.
\<close>

definition closure_call ::
  "('v, 'e) stdlib \<Rightarrow> ('v \<times> 'v \<Rightarrow> size_t option) \<Rightarrow> 'v \<times> 'v \<Rightarrow> ('v, 'e) get_rand_statics
     \<Rightarrow> ('v \<times> ('v, 'e) get_rand_statics) option" where
  "closure_call lib hasher key s =
     (case subscript lib hasher key s of
        None \<Rightarrow> None
      | Some (d, s) \<Rightarrow>
          (case uniform lib d (engine s) of
             None \<Rightarrow> None
           | Some (v, e) \<Rightarrow> Some (v, s\<lparr>engine := e\<rparr>)))"

text \<open>Lines 200 to 204.\<close>

definition rand_impl ::
  "('v, 'e) stdlib \<Rightarrow> ('v \<times> 'v \<Rightarrow> size_t option) \<Rightarrow> 64 word \<Rightarrow> 'v \<Rightarrow> 'v
     \<Rightarrow> ('v, 'e) get_rand_statics option
     \<Rightarrow> ('v \<times> ('v, 'e) get_rand_statics) option" where
  "rand_impl lib hasher now mn mx st =
     (case get_rand_impl lib hasher now mn mx st of
        None \<Rightarrow> None
      | Some (f, s) \<Rightarrow> closure_call lib hasher f s)"

text \<open>
  Lines 212 to 216 and 223 to 227: the public functions. The \<^verbatim>\<open>static_assert\<close> is checked
  by the compiler and leaves no code.
\<close>

definition rand ::
  "('v, 'e) stdlib \<Rightarrow> ('v \<times> 'v \<Rightarrow> size_t option) \<Rightarrow> 64 word \<Rightarrow> 'v \<Rightarrow> 'v
     \<Rightarrow> ('v, 'e) get_rand_statics option
     \<Rightarrow> ('v \<times> ('v, 'e) get_rand_statics) option" where
  "rand lib hasher now mn mx st = rand_impl lib hasher now mn mx st"

definition get_rand ::
  "('v, 'e) stdlib \<Rightarrow> ('v \<times> 'v \<Rightarrow> size_t option) \<Rightarrow> 64 word \<Rightarrow> 'v \<Rightarrow> 'v
     \<Rightarrow> ('v, 'e) get_rand_statics option
     \<Rightarrow> (('v \<times> 'v) \<times> ('v, 'e) get_rand_statics) option" where
  "get_rand lib hasher now mn mx st = get_rand_impl lib hasher now mn mx st"

subsection \<open>\<^verbatim>\<open>details::rand_impl<T, min, max>\<close> and \<^verbatim>\<open>rand<T, min, max>\<close>\<close>

text \<open>
  The statics of one instantiation \<^verbatim>\<open>rand_impl<T, min, max>\<close>, lines 164 to 166.
\<close>

record ('v, 'e) rand_statics =
  rand_seed_time :: unsigned
  rand_generator :: "'v distribution"
  rand_engine :: 'e

text \<open>
  Lines 158 to 168. \<open>ud\<close> is the value of \<^verbatim>\<open>uniform_distribution<T, min, max>()\<close>, which
  only the static initialiser of \<^verbatim>\<open>generator\<close> evaluates.
\<close>

definition rand_impl_tpl ::
  "('v, 'e) stdlib \<Rightarrow> 'v distribution \<Rightarrow> 64 word \<Rightarrow> ('v, 'e) rand_statics option
     \<Rightarrow> ('v \<times> ('v, 'e) rand_statics) option" where
  "rand_impl_tpl lib ud now st =
     (let s = (case st of
                 Some s \<Rightarrow> s
               | None \<Rightarrow>
                   (let seed = gen_seed now
                    in \<lparr>rand_seed_time = seed, rand_generator = ud,
                        rand_engine = mt19937_64 lib (ucast seed)\<rparr>))
      in case uniform lib (rand_generator s) (rand_engine s) of
           None \<Rightarrow> None
         | Some (v, e) \<Rightarrow> Some (v, s\<lparr>rand_engine := e\<rparr>))"

text \<open>
  Lines 234 to 242, \<^verbatim>\<open>rand<T, min, max>()\<close>: at an integral \<open>T\<close> the call of
  \<^verbatim>\<open>uniform_distribution<T, min, max>\<close> resolves to the overload of line 108, at a
  floating-point \<open>T\<close> to the overload of line 123.
\<close>

definition rand_tpl_integral ::
  "('v, 'e) stdlib \<Rightarrow> 'v \<Rightarrow> 'v \<Rightarrow> 64 word \<Rightarrow> ('v, 'e) rand_statics option
     \<Rightarrow> ('v \<times> ('v, 'e) rand_statics) option" where
  "rand_tpl_integral lib mn mx now st =
     rand_impl_tpl lib (uniform_distribution_tpl_integral mn mx) now st"

definition rand_tpl_floating ::
  "('v, 'e) stdlib \<Rightarrow> (int \<Rightarrow> 'v) \<Rightarrow> int \<Rightarrow> int \<Rightarrow> 64 word \<Rightarrow> ('v, 'e) rand_statics option
     \<Rightarrow> ('v \<times> ('v, 'e) rand_statics) option" where
  "rand_tpl_floating lib cast mn mx now st =
     rand_impl_tpl lib (uniform_distribution_tpl_floating cast mn mx) now st"

subsection \<open>\<^verbatim>\<open>details::range\<close> and the default bounds\<close>

text \<open>
  The integral types of C++14, each a type of its own and so a template argument of
  its own, with the signedness and the width they have on x86-64 Linux; \<^verbatim>\<open>bool\<close>
  counts as unsigned of width 1. \<open>numeric_limits_min\<close> and \<open>numeric_limits_max\<close> are
  \<^verbatim>\<open>std::numeric_limits<T>::min()\<close> and \<^verbatim>\<open>max()\<close>.
\<close>

datatype integral_type =
    bool_type | char_type | signed_char | unsigned_char | wchar_type | char16_type | char32_type
  | short | unsigned_short | int_type | unsigned_int | long | unsigned_long
  | long_long | unsigned_long_long

datatype floating_type = Float | Double | Long_double

fun is_signed :: "integral_type \<Rightarrow> bool" where
  "is_signed bool_type = False"
| "is_signed char_type = True"
| "is_signed signed_char = True"
| "is_signed unsigned_char = False"
| "is_signed wchar_type = True"
| "is_signed char16_type = False"
| "is_signed char32_type = False"
| "is_signed short = True"
| "is_signed unsigned_short = False"
| "is_signed int_type = True"
| "is_signed unsigned_int = False"
| "is_signed long = True"
| "is_signed unsigned_long = False"
| "is_signed long_long = True"
| "is_signed unsigned_long_long = False"

fun width :: "integral_type \<Rightarrow> nat" where
  "width bool_type = 1"
| "width char_type = 8"
| "width signed_char = 8"
| "width unsigned_char = 8"
| "width wchar_type = 32"
| "width char16_type = 16"
| "width char32_type = 32"
| "width short = 16"
| "width unsigned_short = 16"
| "width int_type = 32"
| "width unsigned_int = 32"
| "width long = 64"
| "width unsigned_long = 64"
| "width long_long = 64"
| "width unsigned_long_long = 64"

definition numeric_limits_min :: "integral_type \<Rightarrow> int" where
  "numeric_limits_min T = (if is_signed T then - (2 ^ (width T - 1)) else 0)"

definition numeric_limits_max :: "integral_type \<Rightarrow> int" where
  "numeric_limits_max T = (if is_signed T then 2 ^ (width T - 1) - 1 else 2 ^ width T - 1)"

text \<open>
  Lines 58 to 68: \<^verbatim>\<open>range<T>::min\<close> and \<^verbatim>\<open>range<T>::max\<close> at an integral \<open>T\<close>.
  Lines 74 to 85: at a floating-point \<open>T\<close> the \<^verbatim>\<open>value_type\<close> is \<^verbatim>\<open>long long\<close> and the
  bounds are its limits. (\<^verbatim>\<open>actual_min\<close> and \<^verbatim>\<open>actual_max\<close> are used nowhere.)
\<close>

definition range_min_integral :: "integral_type \<Rightarrow> int" where
  "range_min_integral T = numeric_limits_min T"

definition range_max_integral :: "integral_type \<Rightarrow> int" where
  "range_max_integral T = numeric_limits_max T"

definition range_min_floating :: int where
  "range_min_floating = numeric_limits_min long_long"

definition range_max_floating :: int where
  "range_max_floating = numeric_limits_max long_long"

text \<open>
  \<^verbatim>\<open>rand<T>()\<close>: the template of line 239 with the default arguments of lines 236
  and 237.
\<close>

definition rand_default_integral ::
  "(int, 'e) stdlib \<Rightarrow> integral_type \<Rightarrow> 64 word \<Rightarrow> (int, 'e) rand_statics option
     \<Rightarrow> (int \<times> (int, 'e) rand_statics) option" where
  "rand_default_integral lib T now st =
     rand_tpl_integral lib (range_min_integral T) (range_max_integral T) now st"

definition rand_default_floating ::
  "('v, 'e) stdlib \<Rightarrow> (int \<Rightarrow> 'v) \<Rightarrow> 64 word \<Rightarrow> ('v, 'e) rand_statics option
     \<Rightarrow> ('v \<times> ('v, 'e) rand_statics) option" where
  "rand_default_floating lib cast now st =
     rand_tpl_floating lib cast range_min_floating range_max_floating now st"

subsection \<open>Sequences of calls on one instantiation of \<^verbatim>\<open>get_rand_impl\<close>\<close>

text \<open>
  What a program can do with the statics of \<^verbatim>\<open>get_rand_impl<T>\<close>: call
  \<^verbatim>\<open>get_rand(min, max)\<close>, call \<^verbatim>\<open>rand(min, max)\<close>, or call a closure it holds. A step
  is undefined (\<open>None\<close>) when the hash of the key or the library's draw is; a closure
  called before any \<^verbatim>\<open>get_rand\<close> does not exist, and that step is undefined too.
  \<open>draws c\<close> says that the call draws a value.
\<close>

datatype 'v api_call = Get_rand 'v 'v | Rand 'v 'v | Call "'v \<times> 'v"

fun draws :: "'v api_call \<Rightarrow> bool" where
  "draws (Get_rand mn mx) = False"
| "draws (Rand mn mx) = True"
| "draws (Call key) = True"

fun step ::
  "('v, 'e) stdlib \<Rightarrow> ('v \<times> 'v \<Rightarrow> size_t option) \<Rightarrow> 64 word \<Rightarrow> 'v api_call
     \<Rightarrow> ('v, 'e) get_rand_statics option \<Rightarrow> ('v, 'e) get_rand_statics option" where
  "step lib hasher now (Get_rand mn mx) st = map_option snd (get_rand lib hasher now mn mx st)"
| "step lib hasher now (Rand mn mx) st = map_option snd (rand lib hasher now mn mx st)"
| "step lib hasher now (Call key) None = None"
| "step lib hasher now (Call key) (Some s) = map_option snd (closure_call lib hasher key s)"

fun run ::
  "('v, 'e) stdlib \<Rightarrow> ('v \<times> 'v \<Rightarrow> size_t option) \<Rightarrow> (64 word \<times> 'v api_call) list
     \<Rightarrow> ('v, 'e) get_rand_statics \<Rightarrow> ('v, 'e) get_rand_statics option" where
  "run lib hasher [] s = Some s"
| "run lib hasher ((now, c) # cs) s =
     (case step lib hasher now c (Some s) of
        None \<Rightarrow> None
      | Some s' \<Rightarrow> run lib hasher cs s')"


text \<open>
  The invariant of the map: every element was built by line 186, from the bounds
  that are its key.
\<close>

definition cache_inv :: "('v, 'e) get_rand_statics \<Rightarrow> bool" where
  "cache_inv s \<longleftrightarrow>
     (\<forall>key n. generators s key = Some n \<longrightarrow>
        stored n = uniform_distribution (fst key) (snd key))"

definition statics_ok :: "('v, 'e) get_rand_statics option \<Rightarrow> bool" where
  "statics_ok st \<longleftrightarrow> (case st of None \<Rightarrow> True | Some s \<Rightarrow> cache_inv s)"

text \<open>
  The invariant of the statics of \<^verbatim>\<open>rand_impl<T, min, max>\<close>: once initialised,
  \<^verbatim>\<open>generator\<close> is the distribution \<open>ud\<close> that the initialiser of line 165 built.
\<close>

definition rand_statics_ok :: "'v distribution \<Rightarrow> ('v, 'e) rand_statics option \<Rightarrow> bool" where
  "rand_statics_ok ud st \<longleftrightarrow> (case st of None \<Rightarrow> True | Some s \<Rightarrow> rand_generator s = ud)"

subsection \<open>The process: every instantiation and its statics\<close>

text \<open>
  A function template has one set of local statics per instantiation:
  \<^verbatim>\<open>get_rand_impl<T>\<close> per type \<open>T\<close>, \<^verbatim>\<open>rand_impl<T, min, max>\<close> per type and pair of
  template arguments. Values of an integral type are \<open>int\<close>, values of a
  floating-point type are rationals; the platform fixes the library at each type
  and the conversion from \<^verbatim>\<open>long long\<close> to each floating-point type.
\<close>

record 'e platform =
  integral_lib :: "integral_type \<Rightarrow> (int, 'e) stdlib"
  floating_lib :: "floating_type \<Rightarrow> (rat, 'e) stdlib"
  static_cast_floating :: "floating_type \<Rightarrow> int \<Rightarrow> rat"

record 'e process =
  get_rand_integral :: "integral_type \<Rightarrow> (int, 'e) get_rand_statics option"
  get_rand_floating :: "floating_type \<Rightarrow> (rat, 'e) get_rand_statics option"
  rand_integral :: "integral_type \<times> int \<times> int \<Rightarrow> (int, 'e) rand_statics option"
  rand_floating :: "floating_type \<times> int \<times> int \<Rightarrow> (rat, 'e) rand_statics option"

definition process_start :: "'e process" where
  "process_start =
     \<lparr>get_rand_integral = (\<lambda>T. None), get_rand_floating = (\<lambda>T. None),
      rand_integral = (\<lambda>k. None), rand_floating = (\<lambda>k. None)\<rparr>"

text \<open>
  A call of the public interface, at a type: the function-parameter forms and the
  closures (\<open>At_integral\<close>, \<open>At_floating\<close>), and \<^verbatim>\<open>rand<T, min, max>()\<close>.
\<close>

datatype call =
    At_integral integral_type "int api_call"
  | At_floating floating_type "rat api_call"
  | Rand_tpl_integral integral_type int int
  | Rand_tpl_floating floating_type int int

fun exec :: "'e platform \<Rightarrow> 64 word \<Rightarrow> call \<Rightarrow> 'e process \<Rightarrow> 'e process option" where
  "exec P now (At_integral T c) ps =
     (case step (integral_lib P T) hash_integral now c (get_rand_integral ps T) of
        None \<Rightarrow> None
      | Some s \<Rightarrow> Some (ps\<lparr>get_rand_integral := (get_rand_integral ps)(T := Some s)\<rparr>))"
| "exec P now (At_floating T c) ps =
     (case step (floating_lib P T) hash_pair_floating now c (get_rand_floating ps T) of
        None \<Rightarrow> None
      | Some s \<Rightarrow> Some (ps\<lparr>get_rand_floating := (get_rand_floating ps)(T := Some s)\<rparr>))"
| "exec P now (Rand_tpl_integral T mn mx) ps =
     (case rand_tpl_integral (integral_lib P T) mn mx now (rand_integral ps (T, mn, mx)) of
        None \<Rightarrow> None
      | Some (v, s) \<Rightarrow> Some (ps\<lparr>rand_integral := (rand_integral ps)((T, mn, mx) := Some s)\<rparr>))"
| "exec P now (Rand_tpl_floating T mn mx) ps =
     (case rand_tpl_floating (floating_lib P T) (static_cast_floating P T) mn mx now
             (rand_floating ps (T, mn, mx)) of
        None \<Rightarrow> None
      | Some (v, s) \<Rightarrow> Some (ps\<lparr>rand_floating := (rand_floating ps)((T, mn, mx) := Some s)\<rparr>))"

fun execs :: "'e platform \<Rightarrow> (64 word \<times> call) list \<Rightarrow> 'e process \<Rightarrow> 'e process option" where
  "execs P [] ps = Some ps"
| "execs P ((now, c) # cs) ps =
     (case exec P now c ps of
        None \<Rightarrow> None
      | Some ps' \<Rightarrow> execs P cs ps')"

text \<open>
  The instantiations that hold an engine, the instantiation a call runs in, and the
  seed and the engine an instantiation holds once its statics are initialised.
\<close>

datatype template_instance =
    Get_rand_impl_integral integral_type
  | Get_rand_impl_floating floating_type
  | Rand_impl_integral integral_type int int
  | Rand_impl_floating floating_type int int

fun instantiation_of :: "call \<Rightarrow> template_instance" where
  "instantiation_of (At_integral T c) = Get_rand_impl_integral T"
| "instantiation_of (At_floating T c) = Get_rand_impl_floating T"
| "instantiation_of (Rand_tpl_integral T mn mx) = Rand_impl_integral T mn mx"
| "instantiation_of (Rand_tpl_floating T mn mx) = Rand_impl_floating T mn mx"

fun seed_of :: "'e process \<Rightarrow> template_instance \<Rightarrow> unsigned option" where
  "seed_of ps (Get_rand_impl_integral T) = map_option seed_time (get_rand_integral ps T)"
| "seed_of ps (Get_rand_impl_floating T) = map_option seed_time (get_rand_floating ps T)"
| "seed_of ps (Rand_impl_integral T mn mx) = map_option rand_seed_time (rand_integral ps (T, mn, mx))"
| "seed_of ps (Rand_impl_floating T mn mx) = map_option rand_seed_time (rand_floating ps (T, mn, mx))"

fun engine_of :: "'e process \<Rightarrow> template_instance \<Rightarrow> 'e option" where
  "engine_of ps (Get_rand_impl_integral T) = map_option engine (get_rand_integral ps T)"
| "engine_of ps (Get_rand_impl_floating T) = map_option engine (get_rand_floating ps T)"
| "engine_of ps (Rand_impl_integral T mn mx) = map_option rand_engine (rand_integral ps (T, mn, mx))"
| "engine_of ps (Rand_impl_floating T mn mx) = map_option rand_engine (rand_floating ps (T, mn, mx))"

text \<open>
  The engine a call finds: the one its instantiation holds, or, in the first call
  of the instantiation, the one the static initialiser constructs from the seed
  that \<^verbatim>\<open>gen_seed\<close> makes of the clock reading.
\<close>

fun engine_constructor :: "'e platform \<Rightarrow> call \<Rightarrow> 64 word \<Rightarrow> 'e" where
  "engine_constructor P (At_integral T c) = mt19937_64 (integral_lib P T)"
| "engine_constructor P (At_floating T c) = mt19937_64 (floating_lib P T)"
| "engine_constructor P (Rand_tpl_integral T mn mx) = mt19937_64 (integral_lib P T)"
| "engine_constructor P (Rand_tpl_floating T mn mx) = mt19937_64 (floating_lib P T)"

definition engine_found :: "'e platform \<Rightarrow> 64 word \<Rightarrow> call \<Rightarrow> 'e process \<Rightarrow> 'e" where
  "engine_found P now c ps =
     (case engine_of ps (instantiation_of c) of
        Some e \<Rightarrow> e
      | None \<Rightarrow> engine_constructor P c (ucast (gen_seed now)))"

text \<open>
  What a call does to the engine \<open>e\<close> it finds: \<^verbatim>\<open>get_rand\<close> leaves it as it is, every
  other call passes it to one draw of the library at the type and keeps the engine
  \<open>e'\<close> that the draw returns.
\<close>

fun engine_step :: "'e platform \<Rightarrow> call \<Rightarrow> 'e \<Rightarrow> 'e \<Rightarrow> bool" where
  "engine_step P (At_integral T c) e e' \<longleftrightarrow>
     (if draws c then \<exists>d v. uniform (integral_lib P T) d e = Some (v, e') else e' = e)"
| "engine_step P (At_floating T c) e e' \<longleftrightarrow>
     (if draws c then \<exists>d v. uniform (floating_lib P T) d e = Some (v, e') else e' = e)"
| "engine_step P (Rand_tpl_integral T mn mx) e e' \<longleftrightarrow>
     (\<exists>d v. uniform (integral_lib P T) d e = Some (v, e'))"
| "engine_step P (Rand_tpl_floating T mn mx) e e' \<longleftrightarrow>
     (\<exists>d v. uniform (floating_lib P T) d e = Some (v, e'))"

subsection \<open>A small library that keeps the contract\<close>

text \<open>
  Used to run the model on concrete inputs: the engine is a counter and a draw
  whose parameters miss the requirement of the standard is undefined. An integral
  draw is \<open>a + e mod (b - a + 1)\<close>. \<open>dbl_max\<close> is \<^verbatim>\<open>numeric_limits<double>::max()\<close>, and a
  floating-point draw returns the lower bound.
\<close>

definition counter_lib :: "int distribution \<Rightarrow> (int, nat) stdlib" where
  "counter_lib dflt =
     \<lparr>mt19937_64 = unat,
      uniform = (\<lambda>d e. if param_a d \<le> param_b d
                        then Some (param_a d + int e mod (param_b d - param_a d + 1), Suc e)
                        else None),
      default_distribution = dflt\<rparr>"

definition int_lib :: "(int, nat) stdlib" where
  "int_lib = counter_lib \<lparr>param_a = 0, param_b = 2147483647\<rparr>"

definition dbl_max :: rat where
  "dbl_max = (2 ^ 53 - 1) * 2 ^ 971"

definition lowest_lib :: "(rat, nat) stdlib" where
  "lowest_lib =
     \<lparr>mt19937_64 = unat,
      uniform = (\<lambda>d e. if param_a d \<le> param_b d \<and> param_b d - param_a d \<le> dbl_max
                        then Some (param_a d, Suc e) else None),
      default_distribution = \<lparr>param_a = 0, param_b = 1\<rparr>\<rparr>"

definition counter_platform :: "nat platform" where
  "counter_platform =
     \<lparr>integral_lib = (\<lambda>T. counter_lib \<lparr>param_a = 0, param_b = numeric_limits_max T\<rparr>),
      floating_lib = (\<lambda>T. lowest_lib),
      static_cast_floating = (\<lambda>T. of_int)\<rparr>"

text \<open>
  \<^verbatim>\<open>rand<int, 1, 6>()\<close> at the clock reading 1000, then \<^verbatim>\<open>rand(1, 6)\<close> at 2000, in a
  process that has called nothing before.
\<close>

definition two_draws :: "nat process option" where
  "two_draws =
     execs counter_platform
       [(1000, Rand_tpl_integral int_type 1 6), (2000, At_integral int_type (Rand 1 6))]
       process_start"

text \<open>
  The statics of \<^verbatim>\<open>get_rand_impl<int>\<close> after \<^verbatim>\<open>get_rand(1, 12)\<close>, called first at the clock
  reading 1000.
\<close>

definition dice :: "(int, nat) get_rand_statics" where
  "dice = \<lparr>seed_time = 1000, engine = 1000,
        generators = [(1, 12) \<mapsto> \<lparr>address = 0, stored = \<lparr>param_a = 1, param_b = 12\<rparr>\<rparr>],
        next_address = Suc 0\<rparr>"

section \<open>The hash of a pair\<close>

lemma hash_pair_word_of_int:
  "hash_pair (x, y) = (word_of_int ((17 * 31 + x) * 31 + y) AND mask 31) mod 100003"
proof -
  have m: "(0x7fffffff :: size_t) = mask 31"
    by (simp add: mask_eq_exp_minus_1)
  show ?thesis
    unfolding hash_pair_def Let_def m fst_conv snd_conv by simp
qed

lemma uint_masked:
  "uint ((word_of_int k :: size_t) AND mask 31) = k mod 2 ^ 31"
proof -
  have "uint ((word_of_int k :: size_t) AND mask 31) = take_bit 64 (take_bit 31 k)"
    by (simp add: and_mask_wi uint_word_of_int take_bit_eq_mod)
  also have "\<dots> = take_bit 31 k"
    by simp
  finally show ?thesis
    by (simp add: take_bit_eq_mod)
qed

lemma uint_hash_pair:
  "uint (hash_pair (x, y)) = ((17 * 31 + x) * 31 + y) mod 2 ^ 64 mod 2 ^ 31 mod 100003"
proof -
  have "((17 * 31 + x) * 31 + y) mod 2 ^ 64 mod 2 ^ 31 = ((17 * 31 + x) * 31 + y) mod (2 ^ 31 :: int)"
    by (rule mod_mod_cancel) simp
  then show ?thesis
    by (simp only: hash_pair_word_of_int uint_mod uint_masked) simp
qed

lemma uint_hash_bound: "uint (hash_pair (x, y)) \<le> 100002"
proof -
  have "uint (hash_pair (x, y)) < 100003"
    by (simp add: uint_hash_pair)
  then show ?thesis by simp
qed

lemma hash_pair_formula: "hash_pair (x, y) = hash_formula (word_of_int x) (word_of_int y)"
  by (simp add: hash_pair_def hash_formula_def Let_def)

lemma hash_pair_floating_bound:
  assumes "hash_pair_floating q = Some h"
  shows "uint h \<le> 100002"
proof -
  from assms obtain w :: size_t where "h = (w AND 0x7fffffff) mod 100003"
    by (auto simp: hash_pair_floating_def Let_def split: option.splits)
  then have "uint h < 100003"
    by (simp add: uint_mod)
  then show ?thesis by simp
qed

text \<open>
  C10, as the code has it. At an integral \<open>T\<close> the hash is the closed formula in
  \<^verbatim>\<open>std::size_t\<close> arithmetic on the two members converted to \<^verbatim>\<open>std::size_t\<close>: read as an
  integer it is \<open>((17 * 31 + first) * 31 + second) mod 2 ^ 64 mod 2 ^ 31 mod 100003\<close>, it
  lies in \<open>[0, 100002]\<close>, and equal pairs have equal hashes. At a floating-point \<open>T\<close>
  a hash that is returned lies in \<open>[0, 100002]\<close> too.
\<close>

theorem hash_pair_integral:
  "hash_pair (x, y) = hash_formula (word_of_int x) (word_of_int y)
   \<and> uint (hash_pair (x, y)) = ((17 * 31 + x) * 31 + y) mod 2 ^ 64 mod 2 ^ 31 mod 100003
   \<and> 0 \<le> uint (hash_pair (x, y)) \<and> uint (hash_pair (x, y)) \<le> 100002
   \<and> ((x, y) = (x', y') \<longrightarrow> hash_pair (x, y) = hash_pair (x', y'))
   \<and> (\<forall>h. hash_pair_floating q = Some h \<longrightarrow> uint h \<le> 100002)"
  using hash_pair_formula [of x y] uint_hash_pair [of x y] uint_hash_bound [of x y]
    hash_pair_floating_bound [of q]
  by simp

theorem hash_pair_integral_witness:
  "((-1, 6) :: int \<times> int) = (-1, 6)
   \<and> hash_pair_floating (3 / 2, 42) = Some 16410
   \<and> uint (16410 :: size_t) \<le> 100002
   \<and> uint (hash_pair (-1, 6)) = ((17 * 31 + (-1)) * 31 + 6) mod 2 ^ 64 mod 2 ^ 31 mod 100003
   \<and> hash_pair (-1, 6) = 16312"
proof -
  have f: "hash_pair_floating (3 / 2, 42) = Some 16410"
    by code_simp
  have h: "hash_pair (-1, 6) = 16312"
    by (simp add: hash_pair_def)
  from hash_pair_integral [of "-1" 6 "-1" 6 "(3 / 2, 42)"] f h show ?thesis
    by simp
qed

text \<open>
  C10 as stated covers every \<open>T\<close>. At \<^verbatim>\<open>double\<close> and the pair \<open>(-0.5, 0.0)\<close> the first sum
  is \<open>527 - 0.5 = 526.5\<close> in floating point and \<^verbatim>\<open>hash\<close> becomes \<open>526\<close>, so the result is
  \<open>526 * 31 = 16306\<close>; the closed formula in \<^verbatim>\<open>std::size_t\<close> arithmetic, on the members
  converted to \<^verbatim>\<open>std::size_t\<close> (both \<open>0\<close>), is \<open>527 * 31 = 16337\<close>.
\<close>

theorem hash_pair_floating_counterexample:
  "fp_to_size_t (- 1 / 2) = Some 0 \<and> fp_to_size_t 0 = Some 0
   \<and> hash_formula 0 0 = 16337
   \<and> hash_pair_floating (- 1 / 2, 0) = Some 16306
   \<and> hash_pair_floating (- 1 / 2, 0) \<noteq> Some (hash_formula 0 0)"
proof -
  have "fp_to_size_t (- 1 / 2) = Some 0" by code_simp
  moreover have "fp_to_size_t 0 = Some 0" by code_simp
  moreover have "hash_formula 0 0 = 16337" by (simp add: hash_formula_def)
  moreover have "hash_pair_floating (- 1 / 2, 0) = Some 16306" by code_simp
  ultimately show ?thesis by simp
qed

section \<open>The function-parameter forms\<close>

lemma emplace_Some:
  "emplace hasher key d s = Some s' \<longleftrightarrow>
     hasher key \<noteq> None \<and>
     s' = (case generators s key of
             Some n \<Rightarrow> s
           | None \<Rightarrow> s\<lparr>generators := (generators s)(key \<mapsto> \<lparr>address = next_address s, stored = d\<rparr>),
                       next_address := Suc (next_address s)\<rparr>)"
  by (auto simp: emplace_def split: option.splits)

lemma emplace_None: "emplace hasher key d s = None \<longleftrightarrow> hasher key = None"
  by (auto simp: emplace_def split: option.splits)

lemma get_rand_impl_None: "get_rand_impl lib hasher now mn mx st = None \<longleftrightarrow> hasher (mn, mx) = None"
  by (cases st) (auto simp: get_rand_impl_def Let_def emplace_def split: option.splits)

lemma get_rand_impl_key: "get_rand_impl lib hasher now mn mx st = Some (f, s) \<Longrightarrow> f = (mn, mx)"
  by (auto simp: get_rand_impl_def Let_def split: option.splits)

lemma get_rand_impl_hashed:
  "get_rand_impl lib hasher now mn mx st = Some (f, s) \<Longrightarrow> hasher (mn, mx) \<noteq> None"
  using get_rand_impl_None [of lib hasher now mn mx st] by auto

lemma get_rand_impl_defined:
  assumes "hasher (mn, mx) \<noteq> None"
  shows "\<exists>s. get_rand_impl lib hasher now mn mx st = Some ((mn, mx), s)"
proof -
  from assms obtain f s where r: "get_rand_impl lib hasher now mn mx st = Some (f, s)"
    using get_rand_impl_None [of lib hasher now mn mx st] by auto
  with get_rand_impl_key [OF r] show ?thesis
    by simp
qed

lemma emplace_cached:
  assumes "emplace hasher key d s = Some s'"
  shows "\<exists>n. generators s' key = Some n \<and> (generators s key = None \<longrightarrow> n = \<lparr>address = next_address s, stored = d\<rparr>)
      \<and> (\<forall>m. generators s key = Some m \<longrightarrow> n = m)"
  using assms by (auto simp: emplace_Some split: option.splits)

lemma emplace_cache_inv:
  assumes "cache_inv s" "emplace hasher (mn, mx) (uniform_distribution mn mx) s = Some s'"
  shows "cache_inv s'"
  using assms by (auto simp: cache_inv_def emplace_Some split: option.splits)

lemma get_rand_impl_cache_inv:
  assumes "statics_ok st" "get_rand_impl lib hasher now mn mx st = Some (f, s)"
  shows "cache_inv s"
proof (cases st)
  case None
  have i: "cache_inv \<lparr>seed_time = gen_seed now, engine = mt19937_64 lib (ucast (gen_seed now)),
           generators = Map.empty, next_address = 0\<rparr>"
    by (simp add: cache_inv_def)
  from assms(2) have "emplace hasher (mn, mx) (uniform_distribution mn mx)
           \<lparr>seed_time = gen_seed now, engine = mt19937_64 lib (ucast (gen_seed now)),
            generators = Map.empty, next_address = 0\<rparr> = Some s"
    by (simp add: get_rand_impl_def Let_def None split: option.splits)
  from emplace_cache_inv [OF i this] show ?thesis .
next
  case (Some s0)
  with assms(1) have i: "cache_inv s0"
    by (simp add: statics_ok_def)
  from assms(2) have "emplace hasher (mn, mx) (uniform_distribution mn mx) s0 = Some s"
    by (simp add: get_rand_impl_def Let_def Some split: option.splits)
  from emplace_cache_inv [OF i this] show ?thesis .
qed

lemma get_rand_impl_cached:
  assumes "get_rand_impl lib hasher now mn mx st = Some (f, s)"
  shows "\<exists>n. generators s (mn, mx) = Some n"
proof -
  from assms obtain s0 where "emplace hasher (mn, mx) (uniform_distribution mn mx) s0 = Some s"
    by (auto simp: get_rand_impl_def Let_def split: option.splits)
  from emplace_cached [OF this] show ?thesis
    by blast
qed

lemma closure_call_cached:
  "generators s key = Some n \<Longrightarrow>
   closure_call lib hasher key s =
     (case hasher key of
        None \<Rightarrow> None
      | Some h \<Rightarrow>
          (case uniform lib (stored n) (engine s) of
             None \<Rightarrow> None
           | Some (v, e) \<Rightarrow> Some (v, s\<lparr>engine := e\<rparr>)))"
  by (simp add: closure_call_def subscript_def split: option.splits)

lemma subscript_cached:
  "generators s key = Some n \<Longrightarrow>
   subscript lib hasher key s = (case hasher key of None \<Rightarrow> None | Some h \<Rightarrow> Some (stored n, s))"
  by (simp add: subscript_def split: option.splits)


lemma counter_lib_contract: "integral_library (counter_lib dflt)"
proof -
  have "a + int e mod (b - a + 1) \<le> b \<and> a \<le> a + int e mod (b - a + 1)" if "a \<le> b" for a b :: int and e :: nat
  proof -
    from that have "0 < b - a + 1"
      by simp
    then have "int e mod (b - a + 1) < b - a + 1" "0 \<le> int e mod (b - a + 1)"
      by (rule pos_mod_bound, rule pos_mod_sign)
    then show ?thesis
      by simp
  qed
  then show ?thesis
    by (simp add: integral_library_def uniform_contract_def uniform_int_requirement_def counter_lib_def)
qed

lemma lowest_lib_contract: "floating_library dbl_max lowest_lib"
  by (simp add: floating_library_def uniform_contract_def uniform_real_requirement_def lowest_lib_def)

lemma hash_integral_defined: "hash_integral p \<noteq> None"
  by (simp add: hash_integral_def)


lemma closure_call_cache_inv:
  assumes "cache_inv s" "generators s key = Some n" "closure_call lib hasher key s = Some (v, s')"
  shows "cache_inv s'"
  using assms by (auto simp: closure_call_cached cache_inv_def split: option.splits)

lemma rand_impl_cache_inv:
  assumes "statics_ok st" "rand_impl lib hasher now mn mx st = Some (v, s')"
  shows "cache_inv s'"
proof -
  from assms(2) obtain f s where g: "get_rand_impl lib hasher now mn mx st = Some (f, s)"
    and c: "closure_call lib hasher f s = Some (v, s')"
    by (auto simp: rand_impl_def split: option.splits)
  have f: "f = (mn, mx)"
    using get_rand_impl_key [OF g] .
  have inv: "cache_inv s"
    using get_rand_impl_cache_inv [OF assms(1) g] .
  obtain n where n: "generators s (mn, mx) = Some n"
    using get_rand_impl_cached [OF g] by auto
  from closure_call_cache_inv [OF inv n c [unfolded f]] show ?thesis .
qed



lemma get_rand_None_eval:
  "get_rand lib hasher now mn mx None =
     (case hasher (mn, mx) of
        None \<Rightarrow> None
      | Some h \<Rightarrow>
          Some ((mn, mx),
            \<lparr>seed_time = gen_seed now, engine = mt19937_64 lib (ucast (gen_seed now)),
             generators = [(mn, mx) \<mapsto> \<lparr>address = 0, stored = \<lparr>param_a = mn, param_b = mx\<rparr>\<rparr>],
             next_address = Suc 0\<rparr>))"
  by (simp add: get_rand_def get_rand_impl_def emplace_def uniform_distribution_def Let_def
      split: option.splits)

lemma dice_eval:
  "get_rand int_lib hash_integral 1000 1 12 None =
     Some ((1, 12),
       \<lparr>seed_time = 1000, engine = 1000,
        generators = [(1, 12) \<mapsto> \<lparr>address = 0, stored = \<lparr>param_a = 1, param_b = 12\<rparr>\<rparr>],
        next_address = Suc 0\<rparr>)"
  by (simp add: get_rand_None_eval hash_integral_def gen_seed_def int_lib_def counter_lib_def)

lemma dice_ok: "statics_ok (Some dice)"
  using get_rand_impl_cache_inv [of None int_lib hash_integral 1000 1 12 "(1, 12)" dice] dice_eval
  by (simp add: statics_ok_def get_rand_def dice_def)










lemma emplace_frame:
  assumes "emplace hasher key d s = Some s'" "generators s k = Some n"
  shows "generators s' k = Some n \<and> seed_time s' = seed_time s \<and> engine s' = engine s"
  using assms by (auto simp: emplace_Some split: option.splits)

lemma emplace_present:
  "generators s key = Some n \<Longrightarrow> hasher key \<noteq> None \<Longrightarrow> emplace hasher key d s = Some s"
  by (auto simp: emplace_def)

lemma get_rand_impl_frame:
  assumes "get_rand_impl lib hasher now mn mx (Some s) = Some (f, s')" "generators s k = Some n"
  shows "generators s' k = Some n \<and> seed_time s' = seed_time s"
proof -
  from assms(1) have "emplace hasher (mn, mx) (uniform_distribution mn mx) s = Some s'"
    by (simp add: get_rand_impl_def Let_def split: option.splits)
  from emplace_frame [OF this assms(2)] show ?thesis
    by simp
qed

lemma closure_call_frame:
  assumes "closure_call lib hasher key s = Some (v, s')" "generators s k = Some n"
  shows "generators s' k = Some n \<and> seed_time s' = seed_time s"
  using assms
  by (auto simp: closure_call_def subscript_def split: option.splits)

lemma step_frame:
  assumes "step lib hasher now c (Some s) = Some s'" "generators s k = Some n"
  shows "generators s' k = Some n \<and> seed_time s' = seed_time s"
proof (cases c)
  case (Get_rand mn mx)
  with assms(1) obtain f where "get_rand_impl lib hasher now mn mx (Some s) = Some (f, s')"
    by (auto simp: get_rand_def)
  from get_rand_impl_frame [OF this assms(2)] show ?thesis .
next
  case (Rand mn mx)
  with assms(1) obtain v f s1 where g: "get_rand_impl lib hasher now mn mx (Some s) = Some (f, s1)"
    and c: "closure_call lib hasher f s1 = Some (v, s')"
    by (auto simp: rand_def rand_impl_def split: option.splits)
  from get_rand_impl_frame [OF g assms(2)]
  have s1: "generators s1 k = Some n" "seed_time s1 = seed_time s"
    by simp_all
  from closure_call_frame [OF c s1(1)] s1(2) show ?thesis
    by simp
next
  case (Call key)
  with assms(1) obtain v where "closure_call lib hasher key s = Some (v, s')"
    by auto
  from closure_call_frame [OF this assms(2)] show ?thesis .
qed

lemma run_frame:
  "run lib hasher cs s = Some s' \<Longrightarrow> generators s k = Some n \<Longrightarrow>
   generators s' k = Some n \<and> seed_time s' = seed_time s"
proof (induction cs arbitrary: s)
  case Nil
  then show ?case by simp
next
  case (Cons a cs)
  obtain now c where a: "a = (now, c)"
    by (cases a)
  from Cons.prems(1) a obtain s1 where
    s1: "step lib hasher now c (Some s) = Some s1" "run lib hasher cs s1 = Some s'"
    by (auto split: option.splits)
  from step_frame [OF s1(1) Cons.prems(2)] Cons.IH [OF s1(2)] show ?case
    by simp
qed

lemma step_cache_inv:
  assumes "cache_inv s" "step lib hasher now c (Some s) = Some s'"
    and "\<And>key. c = Call key \<Longrightarrow> generators s key \<noteq> None"
  shows "cache_inv s'"
proof (cases c)
  case (Get_rand mn mx)
  with assms(2) obtain f where "get_rand_impl lib hasher now mn mx (Some s) = Some (f, s')"
    by (auto simp: get_rand_def)
  from get_rand_impl_cache_inv [OF _ this] assms(1) show ?thesis
    by (simp add: statics_ok_def)
next
  case (Rand mn mx)
  with assms(2) obtain v where "rand_impl lib hasher now mn mx (Some s) = Some (v, s')"
    by (auto simp: rand_def)
  from rand_impl_cache_inv [OF _ this] assms(1) show ?thesis
    by (simp add: statics_ok_def)
next
  case (Call key)
  with assms(2) obtain v where c: "closure_call lib hasher key s = Some (v, s')"
    by auto
  from assms(3) [OF Call] obtain n where "generators s key = Some n"
    by auto
  from closure_call_cache_inv [OF assms(1) this c] show ?thesis .
qed

lemma dice_node:
  "generators dice (1, 12) = Some \<lparr>address = 0, stored = \<lparr>param_a = 1, param_b = 12\<rparr>\<rparr>"
  by (simp add: dice_def)

lemma dice_run:
  "\<exists>s'. run int_lib hash_integral
      [(1001, Call (1, 12)), (1002, Get_rand 1 6), (1003, Rand 1 12), (1004, Get_rand 1 12),
       (1005, Call (1, 6))]
      dice = Some s'"
proof -
  have "\<not> Option.is_none (run int_lib hash_integral
      [(1001, Call (1, 12)), (1002, Get_rand 1 6), (1003, Rand 1 12), (1004, Get_rand 1 12),
       (1005, Call (1, 6))]
      dice)"
    by code_simp
  then show ?thesis
    by (auto simp: Option.is_none_def)
qed

text \<open>
  C7. Once a sampler's distribution is in the map, no sequence of later calls on the
  instantiation (calls of this or any other closure, \<^verbatim>\<open>get_rand\<close> and \<^verbatim>\<open>rand\<close> with the
  same or other bounds) changes the stored object or its parameters, and none changes
  the seed: afterwards \<^verbatim>\<open>generators[key]\<close> is the same distribution, and a call of the
  sampler is the library's draw from it.
\<close>

theorem sampler_distribution_fixed:
  assumes "generators s key = Some n" "run lib hasher cs s = Some s'"
  shows "generators s' key = Some n \<and> seed_time s' = seed_time s
         \<and> subscript lib hasher key s' =
             (case hasher key of None \<Rightarrow> None | Some h \<Rightarrow> Some (stored n, s'))
         \<and> closure_call lib hasher key s' =
             (case hasher key of
                None \<Rightarrow> None
              | Some h \<Rightarrow>
                  (case uniform lib (stored n) (engine s') of
                     None \<Rightarrow> None
                   | Some (v, e) \<Rightarrow> Some (v, s'\<lparr>engine := e\<rparr>)))"
proof -
  from run_frame [OF assms(2) assms(1)]
  have g: "generators s' key = Some n" and sd: "seed_time s' = seed_time s"
    by simp_all
  from g sd subscript_cached [OF g] closure_call_cached [OF g] show ?thesis
    by simp
qed

theorem sampler_distribution_fixed_witness:
  "generators dice (1, 12) = Some \<lparr>address = 0, stored = \<lparr>param_a = 1, param_b = 12\<rparr>\<rparr>
   \<and> (\<exists>s'. run int_lib hash_integral
           [(1001, Call (1, 12)), (1002, Get_rand 1 6), (1003, Rand 1 12), (1004, Get_rand 1 12),
            (1005, Call (1, 6))]
           dice = Some s'
         \<and> generators s' (1, 12) = Some \<lparr>address = 0, stored = \<lparr>param_a = 1, param_b = 12\<rparr>\<rparr>
         \<and> seed_time s' = 1000
         \<and> subscript int_lib hash_integral (1, 12) s' = Some (\<lparr>param_a = 1, param_b = 12\<rparr>, s')
         \<and> closure_call int_lib hash_integral (1, 12) s' =
             (case uniform int_lib \<lparr>param_a = 1, param_b = 12\<rparr> (engine s') of
                None \<Rightarrow> None
              | Some (v, e) \<Rightarrow> Some (v, s'\<lparr>engine := e\<rparr>)))"
proof -
  obtain s' where r: "run int_lib hash_integral
      [(1001, Call (1, 12)), (1002, Get_rand 1 6), (1003, Rand 1 12), (1004, Get_rand 1 12),
       (1005, Call (1, 6))]
      dice = Some s'"
    using dice_run by blast
  have sd: "seed_time dice = 1000"
    by (simp add: dice_def)
  from sampler_distribution_fixed [OF dice_node r] r sd dice_node show ?thesis
    by (simp add: hash_integral_def)
qed

text \<open>
  C4. Two calls of \<^verbatim>\<open>get_rand\<close> with equal bounds, whatever is called in between:
  the closures are equal, the second call leaves the statics as they were (it
  stores and replaces nothing), the map holds under the key the node it held after
  the first call, \<^verbatim>\<open>generators[key]\<close> in either closure is the distribution of that
  node, and a call of either closure is the library's draw from that distribution.
\<close>

theorem get_rand_same_object:
  assumes "get_rand lib hasher now1 mn mx st = Some (f1, s1)"
    and "run lib hasher cs s1 = Some s2"
    and "get_rand lib hasher now2 mn mx (Some s2) = Some (f2, s3)"
  shows "f2 = f1 \<and> s3 = s2
         \<and> (\<exists>n. generators s1 f1 = Some n \<and> generators s3 f2 = Some n
                \<and> subscript lib hasher f1 s3 = Some (stored n, s3)
                \<and> subscript lib hasher f2 s3 = Some (stored n, s3)
                \<and> closure_call lib hasher f1 s3 =
                    (case uniform lib (stored n) (engine s3) of
                       None \<Rightarrow> None
                     | Some (v, e) \<Rightarrow> Some (v, s3\<lparr>engine := e\<rparr>))
                \<and> closure_call lib hasher f2 s3 =
                    (case uniform lib (stored n) (engine s3) of
                       None \<Rightarrow> None
                     | Some (v, e) \<Rightarrow> Some (v, s3\<lparr>engine := e\<rparr>)))"
proof -
  have g1: "get_rand_impl lib hasher now1 mn mx st = Some (f1, s1)"
    using assms(1) by (simp add: get_rand_def)
  have f1: "f1 = (mn, mx)"
    using get_rand_impl_key [OF g1] .
  have h: "hasher (mn, mx) \<noteq> None"
    using get_rand_impl_hashed [OF g1] .
  obtain n where n: "generators s1 (mn, mx) = Some n"
    using get_rand_impl_cached [OF g1] by auto
  have n2: "generators s2 (mn, mx) = Some n"
    using run_frame [OF assms(2) n] by simp
  then have "get_rand_impl lib hasher now2 mn mx (Some s2) = Some ((mn, mx), s2)"
    using h by (simp add: get_rand_impl_def Let_def emplace_present)
  with assms(3) have e: "f2 = (mn, mx)" "s3 = s2"
    by (simp_all add: get_rand_def)
  from h obtain x where x: "hasher (mn, mx) = Some x"
    by auto
  show ?thesis
    unfolding f1 e
    using n n2 subscript_cached [OF n2, of lib hasher] closure_call_cached [OF n2, of lib hasher] x
    by simp
qed

theorem get_rand_same_object_witness:
  "get_rand int_lib hash_integral 1000 1 12 None = Some ((1, 12), dice)
   \<and> (\<exists>s2. run int_lib hash_integral
           [(1001, Call (1, 12)), (1002, Get_rand 1 6), (1003, Rand 1 12), (1004, Get_rand 1 12),
            (1005, Call (1, 6))]
           dice = Some s2
         \<and> get_rand int_lib hash_integral 2000 1 12 (Some s2) = Some ((1, 12), s2)
         \<and> generators s2 (1, 12) = Some \<lparr>address = 0, stored = \<lparr>param_a = 1, param_b = 12\<rparr>\<rparr>
         \<and> closure_call int_lib hash_integral (1, 12) s2 =
             (case uniform int_lib \<lparr>param_a = 1, param_b = 12\<rparr> (engine s2) of
                None \<Rightarrow> None
              | Some (v, e) \<Rightarrow> Some (v, s2\<lparr>engine := e\<rparr>)))"
proof -
  obtain s2 where r: "run int_lib hash_integral
      [(1001, Call (1, 12)), (1002, Get_rand 1 6), (1003, Rand 1 12), (1004, Get_rand 1 12),
       (1005, Call (1, 6))]
      dice = Some s2"
    using dice_run by blast
  have g1: "get_rand int_lib hash_integral 1000 1 12 None = Some ((1, 12), dice)"
    by (simp add: dice_eval dice_def)
  from get_rand_impl_defined [of hash_integral 1 12 int_lib 2000 "Some s2", OF hash_integral_defined]
  obtain s3 where g2: "get_rand int_lib hash_integral 2000 1 12 (Some s2) = Some ((1, 12), s3)"
    by (auto simp: get_rand_def)
  from get_rand_same_object [OF g1 r g2] dice_node
  have e: "s3 = s2"
    and n: "generators s3 (1, 12) = Some \<lparr>address = 0, stored = \<lparr>param_a = 1, param_b = 12\<rparr>\<rparr>"
    and c: "closure_call int_lib hash_integral (1, 12) s3 =
             (case uniform int_lib \<lparr>param_a = 1, param_b = 12\<rparr> (engine s3) of
                None \<Rightarrow> None
              | Some (v, e) \<Rightarrow> Some (v, s3\<lparr>engine := e\<rparr>))"
    by auto
  from g1 r g2 n c show ?thesis
    unfolding e by blast
qed

text \<open>
  C9. \<^verbatim>\<open>rand(min, max)\<close> is \<^verbatim>\<open>get_rand(min, max)\<close> followed by one call of the closure it
  returns. After a call of \<^verbatim>\<open>rand(min, max)\<close> that returns, the map has a node under
  the key \<open>(min, max)\<close>: the node that was there before the call, or else a new node
  that holds \<^verbatim>\<open>uniform_distribution<T>(min, max)\<close>; where the invariant of the map held
  before the call, the node holds that distribution in either case.
\<close>

theorem rand_is_get_rand_then_call:
  "rand lib hasher now mn mx st =
     (case get_rand lib hasher now mn mx st of
        None \<Rightarrow> None
      | Some (f, s) \<Rightarrow> closure_call lib hasher f s)
   \<and> (\<forall>v s'. rand lib hasher now mn mx st = Some (v, s') \<longrightarrow>
        (\<exists>n. generators s' (mn, mx) = Some n
           \<and> (statics_ok st \<longrightarrow> stored n = uniform_distribution mn mx)
           \<and> (st = None \<longrightarrow> n = \<lparr>address = 0, stored = uniform_distribution mn mx\<rparr>)
           \<and> (\<forall>s0. st = Some s0 \<and> generators s0 (mn, mx) = None \<longrightarrow>
                 n = \<lparr>address = next_address s0, stored = uniform_distribution mn mx\<rparr>)
           \<and> (\<forall>s0 m. st = Some s0 \<and> generators s0 (mn, mx) = Some m \<longrightarrow> n = m)))"
proof -
  have "\<exists>n. generators s' (mn, mx) = Some n
           \<and> (statics_ok st \<longrightarrow> stored n = uniform_distribution mn mx)
           \<and> (st = None \<longrightarrow> n = \<lparr>address = 0, stored = uniform_distribution mn mx\<rparr>)
           \<and> (\<forall>s0. st = Some s0 \<and> generators s0 (mn, mx) = None \<longrightarrow>
                 n = \<lparr>address = next_address s0, stored = uniform_distribution mn mx\<rparr>)
           \<and> (\<forall>s0 m. st = Some s0 \<and> generators s0 (mn, mx) = Some m \<longrightarrow> n = m)"
    if r: "rand lib hasher now mn mx st = Some (v, s')" for v s'
  proof -
    from r obtain f s where g: "get_rand_impl lib hasher now mn mx st = Some (f, s)"
      and c: "closure_call lib hasher f s = Some (v, s')"
      by (auto simp: rand_def rand_impl_def split: option.splits)
    have f: "f = (mn, mx)"
      using get_rand_impl_key [OF g] .
    obtain n where n: "generators s (mn, mx) = Some n"
      using get_rand_impl_cached [OF g] by auto
    have n': "generators s' (mn, mx) = Some n"
      using closure_call_frame [OF c n] by simp
    have a: "stored n = uniform_distribution mn mx" if "statics_ok st"
      using get_rand_impl_cache_inv [OF that g] n by (auto simp: cache_inv_def)
    have b: "n = \<lparr>address = 0, stored = uniform_distribution mn mx\<rparr>" if "st = None"
      using g n that by (auto simp: get_rand_impl_def Let_def emplace_Some split: option.splits)
    have d: "n = \<lparr>address = next_address s0, stored = uniform_distribution mn mx\<rparr>"
      if "st = Some s0" "generators s0 (mn, mx) = None" for s0
      using g n that by (auto simp: get_rand_impl_def Let_def emplace_Some split: option.splits)
    have e: "n = m" if "st = Some s0" "generators s0 (mn, mx) = Some m" for s0 m
      using g n that by (auto simp: get_rand_impl_def Let_def emplace_Some split: option.splits)
    from n' a b d e show ?thesis
      by blast
  qed
  then show ?thesis
    by (simp add: rand_def rand_impl_def get_rand_def)
qed

theorem rand_is_get_rand_then_call_witness:
  "rand int_lib hash_integral 1000 1 6 None =
     (case get_rand int_lib hash_integral 1000 1 6 None of
        None \<Rightarrow> None
      | Some (f, s) \<Rightarrow> closure_call int_lib hash_integral f s)
   \<and> (\<exists>v s'. rand int_lib hash_integral 1000 1 6 None = Some (v, s')
         \<and> generators s' (1, 6) = Some \<lparr>address = 0, stored = uniform_distribution 1 6\<rparr>)
   \<and> statics_ok (Some dice) \<and> generators dice (1, 6) = None
   \<and> (\<exists>v s'. rand int_lib hash_integral 1001 1 6 (Some dice) = Some (v, s')
         \<and> generators s' (1, 6) = Some \<lparr>address = 1, stored = uniform_distribution 1 6\<rparr>)
   \<and> generators dice (1, 12) = Some \<lparr>address = 0, stored = \<lparr>param_a = 1, param_b = 12\<rparr>\<rparr>
   \<and> (\<exists>v s'. rand int_lib hash_integral 1002 1 12 (Some dice) = Some (v, s')
         \<and> generators s' (1, 12) = Some \<lparr>address = 0, stored = \<lparr>param_a = 1, param_b = 12\<rparr>\<rparr>)"
proof -
  have "\<not> Option.is_none (rand int_lib hash_integral 1002 1 12 (Some dice))"
    by code_simp
  then obtain x u' where p: "rand int_lib hash_integral 1002 1 12 (Some dice) = Some (x, u')"
    by (auto simp: Option.is_none_def)
  have "\<not> Option.is_none (rand int_lib hash_integral 1000 1 6 None)"
    by code_simp
  then obtain v s' where r: "rand int_lib hash_integral 1000 1 6 None = Some (v, s')"
    by (auto simp: Option.is_none_def)
  have "\<not> Option.is_none (rand int_lib hash_integral 1001 1 6 (Some dice))"
    by code_simp
  then obtain w t' where q: "rand int_lib hash_integral 1001 1 6 (Some dice) = Some (w, t')"
    by (auto simp: Option.is_none_def)
  have d: "generators dice (1, 6) = None" "next_address dice = 1"
    by (simp_all add: dice_def)
  note a = rand_is_get_rand_then_call [of int_lib hash_integral 1000 1 6 None]
  note b = rand_is_get_rand_then_call [of int_lib hash_integral 1001 1 6 "Some dice"]
  from a r have 1: "generators s' (1, 6) = Some \<lparr>address = 0, stored = uniform_distribution 1 6\<rparr>"
    by auto
  from b q d have 2: "generators t' (1, 6) = Some \<lparr>address = 1, stored = uniform_distribution 1 6\<rparr>"
    by auto
  note c = rand_is_get_rand_then_call [of int_lib hash_integral 1002 1 12 "Some dice"]
  from c p dice_node
  have 3: "generators u' (1, 12) = Some \<lparr>address = 0, stored = \<lparr>param_a = 1, param_b = 12\<rparr>\<rparr>"
    by auto
  from r 1 have i: "\<exists>v s'. rand int_lib hash_integral 1000 1 6 None = Some (v, s')
         \<and> generators s' (1, 6) = Some \<lparr>address = 0, stored = uniform_distribution 1 6\<rparr>"
    by blast
  from q 2 have j: "\<exists>v s'. rand int_lib hash_integral 1001 1 6 (Some dice) = Some (v, s')
         \<and> generators s' (1, 6) = Some \<lparr>address = 1, stored = uniform_distribution 1 6\<rparr>"
    by blast
  from p 3 have k: "\<exists>v s'. rand int_lib hash_integral 1002 1 12 (Some dice) = Some (v, s')
         \<and> generators s' (1, 12) = Some \<lparr>address = 0, stored = \<lparr>param_a = 1, param_b = 12\<rparr>\<rparr>"
    by blast
  show ?thesis
    by (intro conjI a [THEN conjunct1] i dice_ok d(1) j dice_node k)
qed






section \<open>The template-parameter form\<close>

lemma rand_impl_tpl_in_range:
  assumes "uniform_contract req lib" "rand_statics_ok ud st" "req ud"
  shows "\<exists>v s. rand_impl_tpl lib ud now st = Some (v, s) \<and> rand_generator s = ud
           \<and> param_a ud \<le> v \<and> v \<le> param_b ud"
proof (cases st)
  case None
  from assms(1,3) obtain v e where
    "uniform lib ud (mt19937_64 lib (ucast (gen_seed now))) = Some (v, e)"
    "param_a ud \<le> v" "v \<le> param_b ud"
    unfolding uniform_contract_def by blast
  then show ?thesis
    by (simp add: rand_impl_tpl_def Let_def None)
next
  case (Some s0)
  with assms(2) have g: "rand_generator s0 = ud"
    by (simp add: rand_statics_ok_def)
  from assms(1,3) obtain v e where
    "uniform lib ud (rand_engine s0) = Some (v, e)" "param_a ud \<le> v" "v \<le> param_b ud"
    unfolding uniform_contract_def by blast
  then show ?thesis
    by (simp add: rand_impl_tpl_def Let_def Some g)
qed

lemma rand_impl_tpl_statics_ok:
  assumes "rand_statics_ok ud st" "rand_impl_tpl lib ud now st = Some (v, s)"
  shows "rand_statics_ok ud (Some s)"
  using assms
  by (auto simp: rand_statics_ok_def rand_impl_tpl_def Let_def split: option.splits)

lemma rand_impl_tpl_seed:
  assumes "rand_impl_tpl lib ud now st = Some (v, s)"
  shows "rand_seed_time s = (case st of None \<Rightarrow> gen_seed now | Some s0 \<Rightarrow> rand_seed_time s0)"
  using assms
  by (auto simp: rand_impl_tpl_def Let_def split: option.splits)

lemma rand_impl_tpl_engine:
  assumes "rand_impl_tpl lib ud now st = Some (v, s)"
  shows "\<exists>d. uniform lib d
           (case st of None \<Rightarrow> mt19937_64 lib (ucast (gen_seed now)) | Some s0 \<Rightarrow> rand_engine s0)
         = Some (v, rand_engine s)"
  using assms
  by (auto simp: rand_impl_tpl_def Let_def split: option.splits)


lemma numeric_limits_ordered: "numeric_limits_min T \<le> numeric_limits_max T"
proof (cases "is_signed T")
  case True
  have "- (2 ^ (width T - 1)) \<le> (0 :: int)" "(0 :: int) \<le> 2 ^ (width T - 1) - 1"
    by simp_all
  then show ?thesis
    using True by (simp add: numeric_limits_min_def numeric_limits_max_def)
next
  case False
  then show ?thesis
    by (simp add: numeric_limits_min_def numeric_limits_max_def)
qed




text \<open>
  C5. \<^verbatim>\<open>rand<T>()\<close> at an integral \<open>T\<close> draws from the distribution with the parameters
  \<^verbatim>\<open>numeric_limits<T>::min()\<close> and \<^verbatim>\<open>max()\<close>, and its value lies between them; for
  \<^verbatim>\<open>short\<close> these are \<open>-32768\<close> and \<open>32767\<close>. At a floating-point \<open>T\<close> the
  parameters are the least and the greatest \<^verbatim>\<open>long long\<close>, \<open>- 2 ^ 63\<close> and \<open>2 ^ 63 - 1\<close>,
  converted to \<open>T\<close>, and the value lies between them when their difference, at most
  \<open>2 ^ 64\<close>, is within \<^verbatim>\<open>numeric_limits<T>::max()\<close>.
\<close>

theorem default_bounds:
  fixes ilib :: "(int, 'e) stdlib" and flib :: "(rat, 'g) stdlib"
  shows "numeric_limits_min short = - 32768 \<and> numeric_limits_max short = 32767
     \<and> range_min_floating = - (2 ^ 63) \<and> range_max_floating = 2 ^ 63 - 1
     \<and> rand_default_integral ilib T now ist =
         rand_impl_tpl ilib \<lparr>param_a = numeric_limits_min T, param_b = numeric_limits_max T\<rparr> now ist
     \<and> rand_default_floating flib cast now fstat =
         rand_impl_tpl flib \<lparr>param_a = cast (- (2 ^ 63)), param_b = cast (2 ^ 63 - 1)\<rparr> now fstat
     \<and> (integral_library ilib
          \<and> rand_statics_ok \<lparr>param_a = numeric_limits_min T, param_b = numeric_limits_max T\<rparr> ist \<longrightarrow>
            (\<exists>v s. rand_default_integral ilib T now ist = Some (v, s)
               \<and> rand_generator s = \<lparr>param_a = numeric_limits_min T, param_b = numeric_limits_max T\<rparr>
               \<and> numeric_limits_min T \<le> v \<and> v \<le> numeric_limits_max T))
     \<and> (floating_library fmax flib
          \<and> rand_statics_ok \<lparr>param_a = cast (- (2 ^ 63)), param_b = cast (2 ^ 63 - 1)\<rparr> fstat
          \<and> cast_monotone cast \<and> cast (2 ^ 63 - 1) - cast (- (2 ^ 63)) \<le> fmax \<longrightarrow>
            (\<exists>v s. rand_default_floating flib cast now fstat = Some (v, s)
               \<and> rand_generator s = \<lparr>param_a = cast (- (2 ^ 63)), param_b = cast (2 ^ 63 - 1)\<rparr>
               \<and> cast (- (2 ^ 63)) \<le> v \<and> v \<le> cast (2 ^ 63 - 1)))"
proof -
  have s: "numeric_limits_min short = - 32768" "numeric_limits_max short = 32767"
    by (simp_all add: numeric_limits_min_def numeric_limits_max_def)
  have l: "range_min_floating = - (2 ^ 63)" "range_max_floating = 2 ^ 63 - 1"
    by (simp_all add: range_min_floating_def range_max_floating_def numeric_limits_min_def
        numeric_limits_max_def)
  have di: "rand_default_integral ilib T now ist =
      rand_impl_tpl ilib \<lparr>param_a = numeric_limits_min T, param_b = numeric_limits_max T\<rparr> now ist"
    by (simp add: rand_default_integral_def rand_tpl_integral_def uniform_distribution_tpl_integral_def
        range_min_integral_def range_max_integral_def)
  have df: "rand_default_floating flib cast now fstat =
      rand_impl_tpl flib \<lparr>param_a = cast (- (2 ^ 63)), param_b = cast (2 ^ 63 - 1)\<rparr> now fstat"
    by (simp only: rand_default_floating_def rand_tpl_floating_def uniform_distribution_tpl_floating_def l)
  have i: "\<exists>v s. rand_default_integral ilib T now ist = Some (v, s)
         \<and> rand_generator s = \<lparr>param_a = numeric_limits_min T, param_b = numeric_limits_max T\<rparr>
         \<and> numeric_limits_min T \<le> v \<and> v \<le> numeric_limits_max T"
    if h: "integral_library ilib"
      "rand_statics_ok \<lparr>param_a = numeric_limits_min T, param_b = numeric_limits_max T\<rparr> ist"
  proof -
    have q: "uniform_int_requirement \<lparr>param_a = numeric_limits_min T, param_b = numeric_limits_max T\<rparr>"
      using numeric_limits_ordered [of T] by (simp add: uniform_int_requirement_def)
    from rand_impl_tpl_in_range [where req = uniform_int_requirement,
        OF h(1) [unfolded integral_library_def] h(2) q, of now]
    show ?thesis
      by (simp add: di)
  qed
  have f: "\<exists>v s. rand_default_floating flib cast now fstat = Some (v, s)
         \<and> rand_generator s = \<lparr>param_a = cast (- (2 ^ 63)), param_b = cast (2 ^ 63 - 1)\<rparr>
         \<and> cast (- (2 ^ 63)) \<le> v \<and> v \<le> cast (2 ^ 63 - 1)"
    if h: "floating_library fmax flib"
      "rand_statics_ok \<lparr>param_a = cast (- (2 ^ 63)), param_b = cast (2 ^ 63 - 1)\<rparr> fstat"
      "cast_monotone cast" "cast (2 ^ 63 - 1) - cast (- (2 ^ 63)) \<le> fmax"
  proof -
    have "(- (2 ^ 63) :: int) \<le> 2 ^ 63 - 1"
      by simp
    with h(3) have "cast (- (2 ^ 63)) \<le> cast (2 ^ 63 - 1)"
      unfolding cast_monotone_def by blast
    with h(4) have q: "uniform_real_requirement fmax
        \<lparr>param_a = cast (- (2 ^ 63)), param_b = cast (2 ^ 63 - 1)\<rparr>"
      by (simp add: uniform_real_requirement_def)
    from rand_impl_tpl_in_range [where req = "uniform_real_requirement fmax",
        OF h(1) [unfolded floating_library_def] h(2) q, of now]
    show ?thesis
      by (simp add: df)
  qed
  from s l di df i f show ?thesis
    by blast
qed

theorem default_bounds_witness:
  "integral_library int_lib
   \<and> rand_statics_ok \<lparr>param_a = numeric_limits_min short, param_b = numeric_limits_max short\<rparr>
        (None :: (int, nat) rand_statics option)
   \<and> (\<exists>v s. rand_default_integral int_lib short 1000 None = Some (v, s)
         \<and> rand_generator s = \<lparr>param_a = - 32768, param_b = 32767\<rparr>
         \<and> - 32768 \<le> v \<and> v \<le> 32767)
   \<and> floating_library dbl_max lowest_lib
   \<and> rand_statics_ok \<lparr>param_a = (of_int (- (2 ^ 63)) :: rat), param_b = of_int (2 ^ 63 - 1)\<rparr>
        (None :: (rat, nat) rand_statics option)
   \<and> cast_monotone (of_int :: int \<Rightarrow> rat)
   \<and> (of_int (2 ^ 63 - 1) :: rat) - of_int (- (2 ^ 63)) \<le> dbl_max
   \<and> (\<exists>v s. rand_default_floating lowest_lib of_int 1000 None = Some (v, s)
         \<and> rand_generator s = \<lparr>param_a = - (2 ^ 63), param_b = 2 ^ 63 - 1\<rparr>
         \<and> - (2 ^ 63) \<le> v \<and> v \<le> 2 ^ 63 - 1)"
proof -
  have c: "integral_library int_lib"
    by (simp add: int_lib_def counter_lib_contract)
  have ok: "rand_statics_ok \<lparr>param_a = numeric_limits_min short, param_b = numeric_limits_max short\<rparr>
      (None :: (int, nat) rand_statics option)"
    by (simp add: rand_statics_ok_def)
  have fok: "rand_statics_ok \<lparr>param_a = (of_int (- (2 ^ 63)) :: rat), param_b = of_int (2 ^ 63 - 1)\<rparr>
      (None :: (rat, nat) rand_statics option)"
    by (simp add: rand_statics_ok_def)
  have le: "cast_monotone (of_int :: int \<Rightarrow> rat)"
    by (simp add: cast_monotone_def)
  have w: "(of_int (2 ^ 63 - 1) :: rat) - of_int (- (2 ^ 63)) \<le> dbl_max"
    by (simp add: dbl_max_def)
  note d = default_bounds [of int_lib short 1000 None lowest_lib of_int None dbl_max]
  from d have eq: "numeric_limits_min short = - 32768" "numeric_limits_max short = 32767"
    by blast+
  from d c ok have "\<exists>v s. rand_default_integral int_lib short 1000 None = Some (v, s)
         \<and> rand_generator s = \<lparr>param_a = numeric_limits_min short, param_b = numeric_limits_max short\<rparr>
         \<and> numeric_limits_min short \<le> v \<and> v \<le> numeric_limits_max short"
    by blast
  then have i: "\<exists>v s. rand_default_integral int_lib short 1000 None = Some (v, s)
         \<and> rand_generator s = \<lparr>param_a = - 32768, param_b = 32767\<rparr>
         \<and> - 32768 \<le> v \<and> v \<le> 32767"
    by (simp only: eq)
  from d lowest_lib_contract fok le w
  have f: "\<exists>v s. rand_default_floating lowest_lib of_int 1000 None = Some (v, s)
         \<and> rand_generator s = \<lparr>param_a = (of_int (- (2 ^ 63)) :: rat), param_b = of_int (2 ^ 63 - 1)\<rparr>
         \<and> (of_int (- (2 ^ 63)) :: rat) \<le> v \<and> v \<le> of_int (2 ^ 63 - 1)"
    by blast
  then have f': "\<exists>v s. rand_default_floating lowest_lib of_int 1000 None = Some (v, s)
         \<and> rand_generator s = \<lparr>param_a = - (2 ^ 63), param_b = 2 ^ 63 - 1\<rparr>
         \<and> - (2 ^ 63) \<le> v \<and> v \<le> 2 ^ 63 - 1"
    by simp
  from c ok i lowest_lib_contract fok le w f' show ?thesis
    by blast
qed

section \<open>Seeds and engines in the process\<close>

lemma closure_call_seed:
  "closure_call lib hasher key s = Some (v, s') \<Longrightarrow> seed_time s' = seed_time s"
  by (auto simp: closure_call_def subscript_def split: option.splits)

lemma closure_call_engine:
  "closure_call lib hasher key s = Some (v, s') \<Longrightarrow> \<exists>d. uniform lib d (engine s) = Some (v, engine s')"
  by (fastforce simp: closure_call_def subscript_def split: option.splits)

lemma get_rand_impl_seed:
  assumes "get_rand_impl lib hasher now mn mx st = Some (f, s')"
  shows "seed_time s' = (case st of None \<Rightarrow> gen_seed now | Some s \<Rightarrow> seed_time s)
    \<and> engine s' = (case st of None \<Rightarrow> mt19937_64 lib (ucast (gen_seed now)) | Some s \<Rightarrow> engine s)"
  using assms
  by (auto simp: get_rand_impl_def Let_def emplace_def split: option.splits)

lemma step_seed:
  assumes "step lib hasher now c st = Some s'"
  shows "seed_time s' = (case st of None \<Rightarrow> gen_seed now | Some s \<Rightarrow> seed_time s)"
proof (cases c)
  case (Get_rand mn mx)
  with assms obtain f where "get_rand_impl lib hasher now mn mx st = Some (f, s')"
    by (auto simp: get_rand_def)
  from get_rand_impl_seed [OF this] show ?thesis
    by simp
next
  case (Rand mn mx)
  with assms obtain v f s1 where g: "get_rand_impl lib hasher now mn mx st = Some (f, s1)"
    and c: "closure_call lib hasher f s1 = Some (v, s')"
    by (auto simp: rand_def rand_impl_def split: option.splits)
  from closure_call_seed [OF c] get_rand_impl_seed [OF g] show ?thesis
    by simp
next
  case (Call key)
  with assms obtain s v where "st = Some s" "closure_call lib hasher key s = Some (v, s')"
    by (cases st) auto
  with closure_call_seed show ?thesis
    by fastforce
qed

lemma step_engine:
  assumes "step lib hasher now c st = Some s'"
  shows "if draws c
    then \<exists>d v. uniform lib d
        (case st of None \<Rightarrow> mt19937_64 lib (ucast (gen_seed now)) | Some s \<Rightarrow> engine s)
      = Some (v, engine s')
    else engine s' = (case st of None \<Rightarrow> mt19937_64 lib (ucast (gen_seed now)) | Some s \<Rightarrow> engine s)"
proof (cases c)
  case (Get_rand mn mx)
  with assms obtain f where "get_rand_impl lib hasher now mn mx st = Some (f, s')"
    by (auto simp: get_rand_def)
  from get_rand_impl_seed [OF this] Get_rand show ?thesis
    by simp
next
  case (Rand mn mx)
  with assms obtain v f s1 where g: "get_rand_impl lib hasher now mn mx st = Some (f, s1)"
    and c: "closure_call lib hasher f s1 = Some (v, s')"
    by (auto simp: rand_def rand_impl_def split: option.splits)
  from closure_call_engine [OF c] get_rand_impl_seed [OF g] Rand show ?thesis
    by auto
next
  case (Call key)
  with assms obtain s v where "st = Some s" "closure_call lib hasher key s = Some (v, s')"
    by (cases st) auto
  with closure_call_engine [of lib hasher key s v s'] Call show ?thesis
    by auto
qed

lemma exec_frame:
  assumes "exec P now c ps = Some ps'"
  shows "(\<forall>i. i \<noteq> instantiation_of c \<longrightarrow>
            seed_of ps' i = seed_of ps i \<and> engine_of ps' i = engine_of ps i)
         \<and> seed_of ps' (instantiation_of c) =
             Some (case seed_of ps (instantiation_of c) of None \<Rightarrow> gen_seed now | Some sd \<Rightarrow> sd)
         \<and> (\<exists>e'. engine_of ps' (instantiation_of c) = Some e'
               \<and> engine_step P c (engine_found P now c ps) e')"
proof (cases c)
  case (At_integral T a)
  with assms obtain s where s: "step (integral_lib P T) hash_integral now a (get_rand_integral ps T) = Some s"
      "ps' = ps\<lparr>get_rand_integral := (get_rand_integral ps)(T := Some s)\<rparr>"
    by (auto split: option.splits)
  have "seed_of ps' i = seed_of ps i \<and> engine_of ps' i = engine_of ps i"
    if "i \<noteq> Get_rand_impl_integral T" for i
    using that s(2) by (cases i) simp_all
  moreover have "seed_of ps' (Get_rand_impl_integral T) =
      Some (case seed_of ps (Get_rand_impl_integral T) of None \<Rightarrow> gen_seed now | Some sd \<Rightarrow> sd)"
    using step_seed [OF s(1)] s(2) by (simp split: option.splits)
  moreover have "engine_of ps' (Get_rand_impl_integral T) = Some (engine s)"
    using s(2) by simp
  moreover have "engine_step P c (engine_found P now c ps) (engine s)"
    using step_engine [OF s(1)] At_integral
    by (cases "get_rand_integral ps T"; cases "draws a"; simp add: engine_found_def)
  moreover have "instantiation_of c = Get_rand_impl_integral T"
    using At_integral by simp
  ultimately show ?thesis
    by metis
next
  case (At_floating T a)
  with assms obtain s where s: "step (floating_lib P T) hash_pair_floating now a (get_rand_floating ps T) = Some s"
      "ps' = ps\<lparr>get_rand_floating := (get_rand_floating ps)(T := Some s)\<rparr>"
    by (auto split: option.splits)
  have "seed_of ps' i = seed_of ps i \<and> engine_of ps' i = engine_of ps i"
    if "i \<noteq> Get_rand_impl_floating T" for i
    using that s(2) by (cases i) simp_all
  moreover have "seed_of ps' (Get_rand_impl_floating T) =
      Some (case seed_of ps (Get_rand_impl_floating T) of None \<Rightarrow> gen_seed now | Some sd \<Rightarrow> sd)"
    using step_seed [OF s(1)] s(2) by (simp split: option.splits)
  moreover have "engine_of ps' (Get_rand_impl_floating T) = Some (engine s)"
    using s(2) by simp
  moreover have "engine_step P c (engine_found P now c ps) (engine s)"
    using step_engine [OF s(1)] At_floating
    by (cases "get_rand_floating ps T"; cases "draws a"; simp add: engine_found_def)
  moreover have "instantiation_of c = Get_rand_impl_floating T"
    using At_floating by simp
  ultimately show ?thesis
    by metis
next
  case (Rand_tpl_integral T mn mx)
  with assms obtain v s where
    s: "rand_tpl_integral (integral_lib P T) mn mx now (rand_integral ps (T, mn, mx)) = Some (v, s)"
      "ps' = ps\<lparr>rand_integral := (rand_integral ps)((T, mn, mx) := Some s)\<rparr>"
    by (auto split: option.splits)
  have "seed_of ps' i = seed_of ps i \<and> engine_of ps' i = engine_of ps i"
    if "i \<noteq> Rand_impl_integral T mn mx" for i
    using that s(2) by (cases i) auto
  moreover have "seed_of ps' (Rand_impl_integral T mn mx) =
      Some (case seed_of ps (Rand_impl_integral T mn mx) of None \<Rightarrow> gen_seed now | Some sd \<Rightarrow> sd)"
    using rand_impl_tpl_seed [OF s(1) [unfolded rand_tpl_integral_def]] s(2)
    by (simp split: option.splits)
  moreover have "engine_of ps' (Rand_impl_integral T mn mx) = Some (rand_engine s)"
    using s(2) by simp
  moreover have "engine_step P c (engine_found P now c ps) (rand_engine s)"
    using rand_impl_tpl_engine [OF s(1) [unfolded rand_tpl_integral_def]] Rand_tpl_integral
    by (cases "rand_integral ps (T, mn, mx)") (auto simp: engine_found_def)
  moreover have "instantiation_of c = Rand_impl_integral T mn mx"
    using Rand_tpl_integral by simp
  ultimately show ?thesis
    by metis
next
  case (Rand_tpl_floating T mn mx)
  with assms obtain v s where
    s: "rand_tpl_floating (floating_lib P T) (static_cast_floating P T) mn mx now
          (rand_floating ps (T, mn, mx)) = Some (v, s)"
      "ps' = ps\<lparr>rand_floating := (rand_floating ps)((T, mn, mx) := Some s)\<rparr>"
    by (auto split: option.splits)
  have "seed_of ps' i = seed_of ps i \<and> engine_of ps' i = engine_of ps i"
    if "i \<noteq> Rand_impl_floating T mn mx" for i
    using that s(2) by (cases i) auto
  moreover have "seed_of ps' (Rand_impl_floating T mn mx) =
      Some (case seed_of ps (Rand_impl_floating T mn mx) of None \<Rightarrow> gen_seed now | Some sd \<Rightarrow> sd)"
    using rand_impl_tpl_seed [OF s(1) [unfolded rand_tpl_floating_def]] s(2)
    by (simp split: option.splits)
  moreover have "engine_of ps' (Rand_impl_floating T mn mx) = Some (rand_engine s)"
    using s(2) by simp
  moreover have "engine_step P c (engine_found P now c ps) (rand_engine s)"
    using rand_impl_tpl_engine [OF s(1) [unfolded rand_tpl_floating_def]] Rand_tpl_floating
    by (cases "rand_floating ps (T, mn, mx)") (auto simp: engine_found_def)
  moreover have "instantiation_of c = Rand_impl_floating T mn mx"
    using Rand_tpl_floating by simp
  ultimately show ?thesis
    by metis
qed

lemma exec_seed_kept:
  assumes "exec P now c ps = Some ps'" "seed_of ps i = Some sd"
  shows "seed_of ps' i = Some sd"
  using exec_frame [OF assms(1)] assms(2)
  by (cases "i = instantiation_of c") auto

lemma execs_seed_kept:
  "execs P cs ps = Some ps' \<Longrightarrow> seed_of ps i = Some sd \<Longrightarrow> seed_of ps' i = Some sd"
proof (induction cs arbitrary: ps)
  case Nil
  then show ?case by simp
next
  case (Cons a cs)
  obtain now c where a: "a = (now, c)"
    by (cases a)
  from Cons.prems(1) a obtain ps1 where
    p: "exec P now c ps = Some ps1" "execs P cs ps1 = Some ps'"
    by (auto split: option.splits)
  from Cons.IH [OF p(2) exec_seed_kept [OF p(1) Cons.prems(2)]] show ?case .
qed

text \<open>
  C3, as the code has it. Each instantiation that declares the statics has its own
  seed and engine: \<^verbatim>\<open>get_rand_impl<T>\<close> per type, shared by every closure and every
  \<^verbatim>\<open>rand(min, max)\<close> at that type, and \<^verbatim>\<open>rand_impl<T, min, max>\<close> per type and bounds;
  \<^verbatim>\<open>long\<close> and \<^verbatim>\<open>long long\<close> are two types. A call leaves the seed and the engine of
  every other instantiation as they were. The instantiation it runs in is seeded by
  its first call, from the clock reading of that call, and keeps the seed it has in
  every later call and through every sequence of calls. The engine the call finds
  there is the one the instantiation holds, or on the first call the one constructed
  from the seed; a call that draws (a closure, \<^verbatim>\<open>rand(min, max)\<close>, \<^verbatim>\<open>rand<T, min, max>()\<close>)
  leaves in the instantiation the engine that one draw of the library returns from
  the engine found, and \<^verbatim>\<open>get_rand\<close> leaves the engine found. Before the first call no
  instantiation has a seed or an engine.
\<close>

theorem engine_per_instantiation:
  "(exec P now c ps = Some ps' \<longrightarrow>
      (\<forall>i. i \<noteq> instantiation_of c \<longrightarrow>
         seed_of ps' i = seed_of ps i \<and> engine_of ps' i = engine_of ps i)
      \<and> seed_of ps' (instantiation_of c) =
          Some (case seed_of ps (instantiation_of c) of None \<Rightarrow> gen_seed now | Some sd \<Rightarrow> sd)
      \<and> (\<exists>e'. engine_of ps' (instantiation_of c) = Some e'
            \<and> engine_step P c (engine_found P now c ps) e'))
   \<and> (execs P cs ps = Some ps'' \<and> seed_of ps i = Some sd \<longrightarrow> seed_of ps'' i = Some sd)
   \<and> seed_of (process_start :: 'e process) i = None
   \<and> engine_of (process_start :: 'e process) i = None
   \<and> Get_rand_impl_integral long \<noteq> Get_rand_impl_integral long_long"
proof -
  have "seed_of (process_start :: 'e process) i = None"
       "engine_of (process_start :: 'e process) i = None"
    by (cases i; simp add: process_start_def)+
  then show ?thesis
    using exec_frame [of P now c ps ps'] execs_seed_kept [of P cs ps ps'' i sd]
    by blast
qed

theorem engine_per_instantiation_witness:
  "\<exists>ps'. exec counter_platform 1000 (Rand_tpl_integral int_type 1 6) process_start = Some ps'
      \<and> Get_rand_impl_integral int_type \<noteq> instantiation_of (Rand_tpl_integral int_type 1 6)
      \<and> seed_of ps' (Get_rand_impl_integral int_type) = None
      \<and> engine_of ps' (Get_rand_impl_integral int_type) = None
      \<and> seed_of ps' (Rand_impl_integral int_type 1 6) = Some 1000
      \<and> (\<exists>e'. engine_of ps' (Rand_impl_integral int_type 1 6) = Some e'
            \<and> engine_step counter_platform (Rand_tpl_integral int_type 1 6)
                (engine_found counter_platform 1000 (Rand_tpl_integral int_type 1 6) process_start)
                e')
      \<and> (\<exists>ps''. execs counter_platform
                 [(2000, At_integral int_type (Rand 1 6)), (3000, Rand_tpl_integral int_type 1 6)] ps'
               = Some ps''
             \<and> seed_of ps'' (Rand_impl_integral int_type 1 6) = Some 1000)"
proof -
  let ?c = "Rand_tpl_integral int_type 1 6"
  let ?cs = "[(2000, At_integral int_type (Rand 1 6)), (3000, Rand_tpl_integral int_type 1 6)]"
  have "\<not> Option.is_none (exec counter_platform 1000 ?c process_start)"
    by code_simp
  then obtain ps1 where e: "exec counter_platform 1000 ?c process_start = Some ps1"
    by (auto simp: Option.is_none_def)
  have "\<not> Option.is_none (execs counter_platform ((1000, ?c) # ?cs) process_start)"
    by code_simp
  then obtain ps2 where r: "execs counter_platform ?cs ps1 = Some ps2"
    using e by (auto simp: Option.is_none_def)
  have ne: "Get_rand_impl_integral int_type \<noteq> instantiation_of ?c"
    by simp
  have io: "instantiation_of ?c = Rand_impl_integral int_type 1 6"
    by simp
  note t = engine_per_instantiation [of counter_platform 1000 ?c process_start ps1 ?cs ps2
      "Get_rand_impl_integral int_type" 0]
  note st = t [THEN conjunct2, THEN conjunct2]
  note fr = t [THEN conjunct1, THEN mp, OF e, THEN conjunct1, rule_format, OF ne]
  note sd = t [THEN conjunct1, THEN mp, OF e, THEN conjunct2, THEN conjunct1]
  note eg = t [THEN conjunct1, THEN mp, OF e, THEN conjunct2, THEN conjunct2, unfolded io]
  from fr st have a: "seed_of ps1 (Get_rand_impl_integral int_type) = None"
    "engine_of ps1 (Get_rand_impl_integral int_type) = None"
    by simp_all
  have s0: "seed_of (process_start :: nat process) (Rand_impl_integral int_type 1 6) = None"
    by (simp add: process_start_def)
  from sd s0 have b: "seed_of ps1 (Rand_impl_integral int_type 1 6) = Some 1000"
    by (simp add: gen_seed_def)
  have c: "seed_of ps2 (Rand_impl_integral int_type 1 6) = Some 1000"
    by (rule engine_per_instantiation [of counter_platform 1000 ?c ps1 ps1 ?cs ps2
      "Rand_impl_integral int_type 1 6" 1000, THEN conjunct2, THEN conjunct1, THEN mp, OF conjI, OF r b])
  from r c have rc: "\<exists>ps''. execs counter_platform ?cs ps1 = Some ps''
      \<and> seed_of ps'' (Rand_impl_integral int_type 1 6) = Some 1000"
    by blast
  show ?thesis
    by (rule exI [of _ ps1]) (intro conjI e ne a b eg rc)
qed

text \<open>
  C3 as stated has one engine, seeded once, that every draw advances. After
  \<^verbatim>\<open>rand<int, 1, 6>()\<close> and \<^verbatim>\<open>rand(1, 6)\<close> the process holds two engines, seeded from
  two clock readings (\<open>1000\<close> and \<open>2000\<close>), and each has been advanced once: the
  second draw did not advance the engine of the first.
\<close>

theorem two_engines_counterexample:
  "two_draws \<noteq> None
   \<and> seed_of (the two_draws) (Rand_impl_integral int_type 1 6) = Some 1000
   \<and> seed_of (the two_draws) (Get_rand_impl_integral int_type) = Some 2000
   \<and> engine_of (the two_draws) (Rand_impl_integral int_type 1 6) = Some 1001
   \<and> engine_of (the two_draws) (Get_rand_impl_integral int_type) = Some 2001
   \<and> seed_of (the two_draws) (Rand_impl_integral int_type 1 6)
        \<noteq> seed_of (the two_draws) (Get_rand_impl_integral int_type)
   \<and> engine_of (the two_draws) (Rand_impl_integral int_type 1 6)
        \<noteq> engine_of (the two_draws) (Get_rand_impl_integral int_type)"
proof -
  have "\<not> Option.is_none two_draws"
    by code_simp
  then have n: "two_draws \<noteq> None"
    by (simp add: Option.is_none_def)
  have s1: "seed_of (the two_draws) (Rand_impl_integral int_type 1 6) = Some 1000"
    by code_simp
  have s2: "seed_of (the two_draws) (Get_rand_impl_integral int_type) = Some 2000"
    by code_simp
  have e1: "engine_of (the two_draws) (Rand_impl_integral int_type 1 6) = Some 1001"
    by code_simp
  have e2: "engine_of (the two_draws) (Get_rand_impl_integral int_type) = Some 2001"
    by code_simp
  show ?thesis
    unfolding s1 s2 e1 e2 using n by simp
qed

end
